theory Spec2Isabelle
  imports Main "HOL-Library.Sublist"
begin

section \<open>IPO calendar mailer (ipo_email.py)\<close>

text \<open>
  A shallow embedding of the four stages of \<^verbatim>\<open>ipo_email.py\<close>: the fetcher
  \<^verbatim>\<open>get_upcoming_ipos\<close>, the date filter \<^verbatim>\<open>filter_upcoming\<close> with
  \<^verbatim>\<open>parse_date\<close>, the composer \<^verbatim>\<open>compose_email\<close>, the dispatcher
  \<^verbatim>\<open>send_email\<close>, and \<^verbatim>\<open>main\<close>.

  Everything the script reads from outside (the process environment, the clock, the
  time-zone database, the interpreter's table of Unicode digits, the HTTP response, the
  mail server) is a field of a \<open>world\<close> record; every exception is a value of type
  \<open>error\<close>, and a function that can raise returns \<open>error + 'a\<close>. Network actions
  are recorded as a list of events.

  A Python \<^verbatim>\<open>str\<close> is a sequence of Unicode code points and is modelled as the list
  of these numbers, so that white space and digits outside ASCII are single characters as
  they are for \<^verbatim>\<open>str.strip\<close> and for the regular expressions of
  \<^verbatim>\<open>strptime\<close>.
\<close>

subsection \<open>Strings\<close>

type_synonym str = "nat list"

text \<open>An ASCII literal of the script as a \<open>str\<close>, and the code point of a character.\<close>

definition ascii :: "string \<Rightarrow> str" where
  "ascii s = map of_char s"

definition cp :: "char \<Rightarrow> nat" where
  "cp c = of_char c"

text \<open>
  The code points for which \<^verbatim>\<open>str.isspace()\<close> holds: the ASCII controls and the
  space, NEL, the no-break space, the Ogham space mark, U+2000 to U+200A, the line and
  paragraph separators, the narrow no-break space, the medium mathematical space and the
  ideographic space. The class \<^verbatim>\<open>\s\<close> of a \<^verbatim>\<open>str\<close> pattern and
  \<^verbatim>\<open>str.strip()\<close> both use it.
\<close>

definition is_space :: "nat \<Rightarrow> bool" where
  "is_space c = (c \<in> set [0x09, 0x0A, 0x0B, 0x0C, 0x0D, 0x1C, 0x1D, 0x1E, 0x1F, 0x20,
                            0x85, 0xA0, 0x1680,
                            0x2000, 0x2001, 0x2002, 0x2003, 0x2004, 0x2005, 0x2006, 0x2007,
                            0x2008, 0x2009, 0x200A,
                            0x2028, 0x2029, 0x202F, 0x205F, 0x3000])"

definition strip :: "str \<Rightarrow> str" where
  "strip s = rev (dropWhile is_space (rev (dropWhile is_space s)))"

text \<open>\<^verbatim>\<open>str.lower()\<close> on the letters that matter here: no character outside ASCII
  lowers to a letter of a month abbreviation.\<close>

definition lower_char :: "nat \<Rightarrow> nat" where
  "lower_char c = (if cp CHR ''A'' \<le> c \<and> c \<le> cp CHR ''Z'' then c + 32 else c)"

definition lower :: "str \<Rightarrow> str" where
  "lower s = map lower_char s"

text \<open>\<^verbatim>\<open>sep.join(parts)\<close>.\<close>

fun join :: "str \<Rightarrow> str list \<Rightarrow> str" where
  "join sep [] = []"
| "join sep [x] = x"
| "join sep (x # y # ys) = x @ sep @ join sep (y # ys)"

text \<open>Decimal rendering of a natural number, as \<^verbatim>\<open>str(n)\<close> gives it.\<close>

fun show_nat :: "nat \<Rightarrow> str" where
  "show_nat n =
     (if n < 10 then [cp CHR ''0'' + n]
      else show_nat (n div 10) @ [cp CHR ''0'' + n mod 10])"

subsection \<open>Exceptions\<close>

datatype error =
    KeyError str
  | ValueError string
  | IndexError
  | OverflowError
  | UnknownTimeZoneError str
  | HTTPError nat
  | RequestException
  | SMTPException

subsection \<open>Calendar dates\<close>

text \<open>
  \<open>datetime\<close> holds the calendar fields of a \<^verbatim>\<open>datetime.datetime\<close>; the time of
  day is never read by the script and is left out. A \<^verbatim>\<open>datetime.date\<close> is
  represented by its proleptic Gregorian ordinal (\<^verbatim>\<open>date.toordinal()\<close>, day 1 is
  0001-01-01): the library compares dates and adds a \<^verbatim>\<open>timedelta\<close> on that number.
  The largest date, 9999-12-31, has ordinal 3652059.
\<close>

record datetime =
  year :: nat
  month :: nat
  day :: nat

type_synonym date = int

definition is_leap :: "nat \<Rightarrow> bool" where
  "is_leap y = (y mod 4 = 0 \<and> (y mod 100 \<noteq> 0 \<or> y mod 400 = 0))"

definition days_in_month :: "nat \<Rightarrow> nat \<Rightarrow> nat" where
  "days_in_month y m =
     (if m = 2 \<and> is_leap y then 29
      else [31, 28, 31, 30, 31, 30, 31, 31, 30, 31, 30, 31] ! (m - 1))"

definition days_before_year :: "nat \<Rightarrow> nat" where
  "days_before_year y = (let p = y - 1 in p * 365 + p div 4 - p div 100 + p div 400)"

definition days_before_month :: "nat \<Rightarrow> nat \<Rightarrow> nat" where
  "days_before_month y m =
     [0, 31, 59, 90, 120, 151, 181, 212, 243, 273, 304, 334] ! (m - 1)
       + (if 2 < m \<and> is_leap y then 1 else 0)"

definition toordinal :: "datetime \<Rightarrow> date" where
  "toordinal d =
     int (days_before_year (year d) + days_before_month (year d) (month d) + day d)"

text \<open>
  The dates the library can hold, the order of the calendar fields (the library compares
  \<^verbatim>\<open>(year, month, day)\<close>), and the length of a year. The lemmas on calendar
  arithmetic below show that the ordinal of a valid date grows with the calendar order,
  so comparing ordinals is comparing dates.
\<close>

definition valid_datetime :: "datetime \<Rightarrow> bool" where
  "valid_datetime d =
     (1 \<le> year d \<and> 1 \<le> month d \<and> month d \<le> 12 \<and> 1 \<le> day d
      \<and> day d \<le> days_in_month (year d) (month d))"

definition earlier :: "datetime \<Rightarrow> datetime \<Rightarrow> bool" where
  "earlier a b =
     (year a < year b
      \<or> (year a = year b \<and> (month a < month b \<or> (month a = month b \<and> day a < day b))))"

definition days_in_year :: "nat \<Rightarrow> nat" where
  "days_in_year y = (if is_leap y then 366 else 365)"

definition MINORDINAL :: int where
  "MINORDINAL = 1"

definition MAXORDINAL :: int where
  "MAXORDINAL = 3652059"

text \<open>\<^verbatim>\<open>timedelta(days=n)\<close> raises OverflowError beyond 999999999 days, and
  \<^verbatim>\<open>date + timedelta\<close> raises it when the sum is not a date.\<close>

definition timedelta :: "int \<Rightarrow> error + int" where
  "timedelta days = (if \<bar>days\<bar> > 999999999 then Inl OverflowError else Inr days)"

definition date_add :: "date \<Rightarrow> int \<Rightarrow> error + date" where
  "date_add d delta =
     (if MINORDINAL \<le> d + delta \<and> d + delta \<le> MAXORDINAL then Inr (d + delta)
      else Inl OverflowError)"

subsection \<open>The parsed page\<close>

text \<open>
  The tree BeautifulSoup builds: text nodes and elements with a tag name and children.
  \<open>find_all\<close> returns the descendant elements with a given name in document order;
  \<open>get_text\<close> is \<^verbatim>\<open>get_text(strip=True)\<close>: every descendant string is stripped
  with \<^verbatim>\<open>str.strip()\<close>, the empty ones are dropped and the rest are concatenated.
\<close>

datatype node = Text str | Elem str "node list"

fun descendants :: "node \<Rightarrow> node list" where
  "descendants (Text s) = []"
| "descendants (Elem t cs) = concat (map (\<lambda>c. c # descendants c) cs)"

fun is_tag :: "str \<Rightarrow> node \<Rightarrow> bool" where
  "is_tag name (Text s) = False"
| "is_tag name (Elem t cs) = (t = name)"

definition find_all :: "str \<Rightarrow> node \<Rightarrow> node list" where
  "find_all name n = filter (is_tag name) (descendants n)"

fun strings_of :: "node \<Rightarrow> str list" where
  "strings_of (Text s) = [s]"
| "strings_of (Elem t cs) = concat (map strings_of cs)"

definition get_text :: "node \<Rightarrow> str" where
  "get_text n = concat (filter (\<lambda>s. s \<noteq> []) (map strip (strings_of n)))"

subsection \<open>The outside world\<close>

datatype tz = Tz str

record response =
  status_code :: nat
  soup :: node

type_synonym ipo = "str \<rightharpoonup> str"

record message =
  subject :: str
  sender :: str
  recipient :: str
  plain :: str
  html :: str

datatype event =
    HttpGet str
  | SmtpConnect str nat
  | SmtpLogin str str
  | SmtpSendmail str "str list" message
  | SmtpClose

text \<open>
  \<open>environ\<close> is \<^verbatim>\<open>os.environ\<close>; \<open>known_zone\<close> says which names
  \<^verbatim>\<open>pytz.timezone\<close> accepts; \<open>now z\<close> is \<^verbatim>\<open>datetime.now(z)\<close>;
  \<open>digit_zeros\<close> is the interpreter's table of decimal digits outside ASCII (Unicode
  category Nd), given by the code point of the zero of every run of ten digits;
  \<open>http_get\<close> is what \<^verbatim>\<open>requests.get\<close> returns or raises, with the body already
  parsed; the three \<open>smtp\<close> fields say whether connecting, logging in and sending fail.
  The clock stands still during a run: both stages that read it see the same date.
\<close>

record world =
  environ :: "str \<rightharpoonup> str"
  known_zone :: "str \<Rightarrow> bool"
  now :: "tz \<Rightarrow> datetime"
  digit_zeros :: "nat list"
  http_get :: "str \<Rightarrow> error + response"
  smtp_connect :: "error option"
  smtp_login :: "str \<Rightarrow> str \<Rightarrow> error option"
  smtp_sendmail :: "error option"

definition getenv :: "world \<Rightarrow> str \<Rightarrow> str \<Rightarrow> str" where
  "getenv w k dflt = (case environ w k of None \<Rightarrow> dflt | Some v \<Rightarrow> v)"

definition environ_get :: "world \<Rightarrow> str \<Rightarrow> error + str" where
  "environ_get w k = (case environ w k of None \<Rightarrow> Inl (KeyError k) | Some v \<Rightarrow> Inr v)"

definition pytz_timezone :: "world \<Rightarrow> str \<Rightarrow> error + tz" where
  "pytz_timezone w name =
     (if known_zone w name then Inr (Tz name) else Inl (UnknownTimeZoneError name))"

text \<open>The first two lines of both \<^verbatim>\<open>filter_upcoming\<close> and \<^verbatim>\<open>compose_email\<close>:
  \<^verbatim>\<open>if tz is None: tz = pytz.timezone(os.getenv('TIMEZONE', 'America/New_York'))\<close>.\<close>

definition tz_or_default :: "world \<Rightarrow> tz option \<Rightarrow> error + tz" where
  "tz_or_default w tz_arg =
     (case tz_arg of
        None \<Rightarrow> pytz_timezone w (getenv w (ascii ''TIMEZONE'') (ascii ''America/New_York''))
      | Some z \<Rightarrow> Inr z)"

subsection \<open>Decimal digits\<close>

text \<open>
  The value of a decimal digit (\<^verbatim>\<open>unicodedata.decimal\<close>): the ASCII digits, and
  the digits of the runs listed in \<open>digit_zeros\<close>. The class \<^verbatim>\<open>\d\<close> of a
  \<^verbatim>\<open>str\<close> pattern matches exactly the characters that have such a value, and
  \<^verbatim>\<open>int()\<close> reads a string of them in base ten. The classes \<^verbatim>\<open>[0-1]\<close>,
  \<^verbatim>\<open>[1-2]\<close> and \<^verbatim>\<open>[1-9]\<close> match ASCII digits only.
\<close>

definition decimal :: "world \<Rightarrow> nat \<Rightarrow> nat option" where
  "decimal w c =
     (if cp CHR ''0'' \<le> c \<and> c \<le> cp CHR ''9'' then Some (c - cp CHR ''0'')
      else (case find (\<lambda>z. z \<le> c \<and> c < z + 10) (digit_zeros w) of
              None \<Rightarrow> None
            | Some z \<Rightarrow> Some (c - z)))"

definition is_digit :: "world \<Rightarrow> nat \<Rightarrow> bool" where
  "is_digit w c = (decimal w c \<noteq> None)"

definition digit_val :: "world \<Rightarrow> nat \<Rightarrow> nat" where
  "digit_val w c = (case decimal w c of None \<Rightarrow> 0 | Some v \<Rightarrow> v)"

definition int_of_digits :: "world \<Rightarrow> str \<Rightarrow> nat" where
  "int_of_digits w s = foldl (\<lambda>acc c. 10 * acc + digit_val w c) 0 s"

definition in_range :: "char \<Rightarrow> char \<Rightarrow> nat \<Rightarrow> bool" where
  "in_range lo hi c = (cp lo \<le> c \<and> c \<le> cp hi)"

subsection \<open>\<^verbatim>\<open>datetime.strptime(date_str, "%b %d, %Y")\<close>\<close>

text \<open>
  The library turns the format into the regular expression
  \<^verbatim>\<open>(?P<b>jan|...|dec)\s+(?P<d>3[0-1]|[1-2]\d|0[1-9]|[1-9]| [1-9]),\s+(?P<Y>\d\d\d\d)\<close>,
  matched case-insensitively at the start of the string; the month is then looked up by
  the lowered text of group \<open>b\<close>, and the day and the year are read with
  \<^verbatim>\<open>int()\<close>. No match, a month text that is not in the table, text left over after
  the match, year 0 and a day beyond the month's length are all a ValueError. The
  matchers below follow the expression from left to right. The day alternatives are
  tried in the expression's order; committing to the first one that matches loses
  nothing, since the next character must be the comma, and the alternative with a
  leading space is covered by the white-space run before it.
\<close>

definition month_abbr :: "str list" where
  "month_abbr = map ascii [''jan'', ''feb'', ''mar'', ''apr'', ''may'', ''jun'',
                           ''jul'', ''aug'', ''sep'', ''oct'', ''nov'', ''dec'']"

fun index_of :: "'a list \<Rightarrow> 'a \<Rightarrow> nat option" where
  "index_of [] x = None"
| "index_of (y # ys) x = (if x = y then Some 0 else map_option Suc (index_of ys x))"

definition match_month :: "str \<Rightarrow> (nat \<times> str) option" where
  "match_month s =
     (if length s < 3 then None
      else case index_of month_abbr (lower (take 3 s)) of
             None \<Rightarrow> None
           | Some i \<Rightarrow> Some (Suc i, drop 3 s))"

definition match_spaces :: "str \<Rightarrow> str option" where
  "match_spaces s = (if takeWhile is_space s = [] then None else Some (dropWhile is_space s))"

fun match_day :: "world \<Rightarrow> str \<Rightarrow> (nat \<times> str) option" where
  "match_day w (a # b # rest) =
     (if a = cp CHR ''3'' \<and> in_range CHR ''0'' CHR ''1'' b
        then Some (30 + (b - cp CHR ''0''), rest)
      else if in_range CHR ''1'' CHR ''2'' a \<and> is_digit w b
        then Some (10 * (a - cp CHR ''0'') + digit_val w b, rest)
      else if a = cp CHR ''0'' \<and> in_range CHR ''1'' CHR ''9'' b
        then Some (b - cp CHR ''0'', rest)
      else if in_range CHR ''1'' CHR ''9'' a
        then Some (a - cp CHR ''0'', b # rest)
      else None)"
| "match_day w [a] =
     (if in_range CHR ''1'' CHR ''9'' a then Some (a - cp CHR ''0'', []) else None)"
| "match_day w [] = None"

definition match_comma :: "str \<Rightarrow> str option" where
  "match_comma s =
     (case s of [] \<Rightarrow> None | c # rest \<Rightarrow> if c = cp CHR '','' then Some rest else None)"

definition match_year :: "world \<Rightarrow> str \<Rightarrow> (nat \<times> str) option" where
  "match_year w s =
     (if 4 \<le> length s \<and> list_all (is_digit w) (take 4 s)
      then Some (int_of_digits w (take 4 s), drop 4 s)
      else None)"

definition no_match :: error where
  "no_match = ValueError ''time data does not match format''"

definition strptime :: "world \<Rightarrow> str \<Rightarrow> error + datetime" where
  "strptime w s =
     (case match_month s of
        None \<Rightarrow> Inl no_match
      | Some (m, r1) \<Rightarrow>
     (case match_spaces r1 of
        None \<Rightarrow> Inl no_match
      | Some r2 \<Rightarrow>
     (case match_day w r2 of
        None \<Rightarrow> Inl no_match
      | Some (d, r3) \<Rightarrow>
     (case match_comma r3 of
        None \<Rightarrow> Inl no_match
      | Some r4 \<Rightarrow>
     (case match_spaces r4 of
        None \<Rightarrow> Inl no_match
      | Some r5 \<Rightarrow>
     (case match_year w r5 of
        None \<Rightarrow> Inl no_match
      | Some (y, r6) \<Rightarrow>
          if r6 \<noteq> [] then Inl (ValueError ''unconverted data remains'')
          else if y < 1 then Inl (ValueError ''year 0 is out of range'')
          else if days_in_month y m < d then Inl (ValueError ''day is out of range for month'')
          else Inr \<lparr>year = y, month = m, day = d\<rparr>))))))"

subsection \<open>\<^verbatim>\<open>parse_date\<close> and \<^verbatim>\<open>filter_upcoming\<close>\<close>

text \<open>\<^verbatim>\<open>tz.localize\<close> attaches the zone to the naive datetime and leaves its
  calendar fields as they are (the source notes that \<^verbatim>\<open>parsed.date()\<close> would do).\<close>

definition localize :: "tz \<Rightarrow> datetime \<Rightarrow> datetime" where
  "localize z dt = dt"

definition parse_date :: "world \<Rightarrow> str \<Rightarrow> tz \<Rightarrow> error + date" where
  "parse_date w date_str z =
     (case strptime w date_str of
        Inl e \<Rightarrow> Inl e
      | Inr parsed \<Rightarrow> Inr (toordinal (localize z parsed)))"

definition getitem :: "ipo \<Rightarrow> str \<Rightarrow> error + str" where
  "getitem r k = (case r k of None \<Rightarrow> Inl (KeyError k) | Some v \<Rightarrow> Inr v)"

text \<open>The body of the \<^verbatim>\<open>try\<close>: \<^verbatim>\<open>parse_date(ipo['date'], tz)\<close>.\<close>

definition try_parse :: "world \<Rightarrow> ipo \<Rightarrow> tz \<Rightarrow> error + date" where
  "try_parse w r z =
     (case getitem r (ascii ''date'') of Inl e \<Rightarrow> Inl e | Inr s \<Rightarrow> parse_date w s z)"

text \<open>The \<^verbatim>\<open>for\<close> loop; \<open>upcoming\<close> is the list being appended to, and any exception
  of the \<^verbatim>\<open>try\<close> body goes on to the next record.\<close>

fun filter_loop :: "world \<Rightarrow> tz \<Rightarrow> date \<Rightarrow> date \<Rightarrow> ipo list \<Rightarrow> ipo list \<Rightarrow> ipo list" where
  "filter_loop w z today end_date [] upcoming = upcoming"
| "filter_loop w z today end_date (r # rest) upcoming =
     (case try_parse w r z of
        Inl e \<Rightarrow> filter_loop w z today end_date rest upcoming
      | Inr ipo_date \<Rightarrow>
          if today \<le> ipo_date \<and> ipo_date \<le> end_date
          then filter_loop w z today end_date rest (upcoming @ [r])
          else filter_loop w z today end_date rest upcoming)"

definition filter_upcoming :: "world \<Rightarrow> ipo list \<Rightarrow> int \<Rightarrow> tz option \<Rightarrow> error + ipo list" where
  "filter_upcoming w ipos days_ahead tz_arg =
     (case tz_or_default w tz_arg of
        Inl e \<Rightarrow> Inl e
      | Inr z \<Rightarrow>
          let today = toordinal (now w z) in
          (case timedelta days_ahead of
             Inl e \<Rightarrow> Inl e
           | Inr delta \<Rightarrow>
          (case date_add today delta of
             Inl e \<Rightarrow> Inl e
           | Inr end_date \<Rightarrow> Inr (filter_loop w z today end_date ipos []))))"

text \<open>The window as the specification words it: the date field parses, and the parsed
  date lies between today and today plus the window length, both included.\<close>

definition in_window :: "world \<Rightarrow> tz \<Rightarrow> date \<Rightarrow> int \<Rightarrow> ipo \<Rightarrow> bool" where
  "in_window w z today days_ahead r =
     (case try_parse w r z of
        Inl e \<Rightarrow> False
      | Inr d \<Rightarrow> today \<le> d \<and> d \<le> today + days_ahead)"

subsection \<open>\<^verbatim>\<open>get_upcoming_ipos\<close>\<close>

fun bind_err :: "error + 'a \<Rightarrow> ('a \<Rightarrow> error + 'b) \<Rightarrow> error + 'b" where
  "bind_err (Inl e) f = Inl e"
| "bind_err (Inr x) f = f x"

text \<open>\<^verbatim>\<open>cells[i].get_text(strip=True)\<close>, with the IndexError of a list read out of
  range.\<close>

definition cell_text :: "node list \<Rightarrow> nat \<Rightarrow> error + str" where
  "cell_text cells i = (if i < length cells then Inr (get_text (cells ! i)) else Inl IndexError)"

text \<open>The body of the \<^verbatim>\<open>try\<close> and the dictionary appended after it.\<close>

definition row_to_ipo :: "node list \<Rightarrow> error + ipo" where
  "row_to_ipo cells =
     bind_err (cell_text cells 0) (\<lambda>ipo_date.
     bind_err (cell_text cells 1) (\<lambda>symbol.
     bind_err (cell_text cells 2) (\<lambda>company.
     bind_err (cell_text cells 3) (\<lambda>exchange.
     bind_err (cell_text cells 4) (\<lambda>price_range.
     bind_err (cell_text cells 5) (\<lambda>shares_offered.
     bind_err (cell_text cells 6) (\<lambda>deal_size.
     bind_err (cell_text cells 7) (\<lambda>market_cap.
     bind_err (if 8 < length cells then cell_text cells 8 else Inr (ascii ''-'')) (\<lambda>revenue.
       Inr [ascii ''date'' \<mapsto> ipo_date,
            ascii ''symbol'' \<mapsto> symbol,
            ascii ''company'' \<mapsto> company,
            ascii ''exchange'' \<mapsto> exchange,
            ascii ''price_range'' \<mapsto> price_range,
            ascii ''shares_offered'' \<mapsto> shares_offered,
            ascii ''deal_size'' \<mapsto> deal_size,
            ascii ''market_cap'' \<mapsto> market_cap,
            ascii ''revenue'' \<mapsto> revenue])))))))))"

text \<open>The inner loop over the rows of one table body, and the outer loop over the
  bodies; \<open>ipos\<close> is the list being appended to.\<close>

fun rows_loop :: "node list \<Rightarrow> ipo list \<Rightarrow> ipo list" where
  "rows_loop [] ipos = ipos"
| "rows_loop (row # rest) ipos =
     (let cells = find_all (ascii ''td'') row in
      if length cells < 8 then rows_loop rest ipos
      else (case row_to_ipo cells of
              Inl e \<Rightarrow> rows_loop rest ipos
            | Inr r \<Rightarrow> rows_loop rest (ipos @ [r])))"

fun bodies_loop :: "node list \<Rightarrow> ipo list \<Rightarrow> ipo list" where
  "bodies_loop [] ipos = ipos"
| "bodies_loop (tbody # rest) ipos = bodies_loop rest (rows_loop (find_all (ascii ''tr'') tbody) ipos)"

definition no_table_body :: error where
  "no_table_body = ValueError ''Unable to locate IPO table body on the calendar page''"

definition default_url :: str where
  "default_url = ascii ''https://stockanalysis.com/ipos/calendar/''"

definition get_upcoming_ipos :: "world \<Rightarrow> str \<Rightarrow> event list \<times> (error + ipo list)" where
  "get_upcoming_ipos w url =
     (case http_get w url of
        Inl e \<Rightarrow> ([HttpGet url], Inl e)
      | Inr resp \<Rightarrow>
          if 400 \<le> status_code resp \<and> status_code resp < 600
          then ([HttpGet url], Inl (HTTPError (status_code resp)))
          else
            let bodies = find_all (ascii ''tbody'') (soup resp) in
            if bodies = [] then ([HttpGet url], Inl no_table_body)
            else ([HttpGet url], Inr (bodies_loop bodies [])))"

subsection \<open>\<^verbatim>\<open>compose_email\<close>\<close>

text \<open>\<^verbatim>\<open>now.strftime('%B %d, %Y')\<close>: the full month name, the day padded to two
  digits, the year. A \<^verbatim>\<open>datetime\<close> always has a month from 1 to 12.\<close>

definition month_name :: "nat \<Rightarrow> str" where
  "month_name m =
     (if 1 \<le> m \<and> m \<le> 12
      then ascii ([''January'', ''February'', ''March'', ''April'', ''May'', ''June'', ''July'',
                   ''August'', ''September'', ''October'', ''November'', ''December''] ! (m - 1))
      else [])"

definition pad2 :: "nat \<Rightarrow> str" where
  "pad2 n = (if n < 10 then ascii ''0'' @ show_nat n else show_nat n)"

definition strftime :: "datetime \<Rightarrow> str" where
  "strftime d = month_name (month d) @ ascii '' '' @ pad2 (day d) @ ascii '', '' @ show_nat (year d)"

definition newline :: str where
  "newline = [0x0A]"

definition rendered_columns :: "str list" where
  "rendered_columns = map ascii [''date'', ''symbol'', ''company'', ''exchange'', ''price_range'',
                                 ''shares_offered'', ''deal_size'', ''market_cap'']"

text \<open>The dictionary reads of an f-str, from left to right; the first missing key
  raises.\<close>

fun getitems :: "ipo \<Rightarrow> str list \<Rightarrow> error + str list" where
  "getitems r [] = Inr []"
| "getitems r (k # ks) =
     (case getitem r k of
        Inl e \<Rightarrow> Inl e
      | Inr v \<Rightarrow> (case getitems r ks of Inl e \<Rightarrow> Inl e | Inr vs \<Rightarrow> Inr (v # vs)))"

definition text_line :: "str list \<Rightarrow> str" where
  "text_line vals = join (ascii '' | '') vals"

definition html_cell :: "str \<Rightarrow> str" where
  "html_cell v = ascii ''<td>'' @ v @ ascii ''</td>''"

definition html_row :: "str list \<Rightarrow> str" where
  "html_row vals = ascii ''<tr>'' @ concat (map html_cell vals) @ ascii ''</tr>''"

definition header :: str where
  "header =
     ascii ''IPO Date | Symbol | Company | Exchange | Price Range | Shares Offered | '' @
     ascii ''Deal Size | Market Cap'' @ newline @
     replicate 80 (cp CHR ''-'')"

fun compose_loop ::
  "ipo list \<Rightarrow> str list \<Rightarrow> str list \<Rightarrow> error + (str list \<times> str list)" where
  "compose_loop [] lines html_rows = Inr (lines, html_rows)"
| "compose_loop (r # rest) lines html_rows =
     (case getitems r rendered_columns of
        Inl e \<Rightarrow> Inl e
      | Inr vals \<Rightarrow> compose_loop rest (lines @ [text_line vals]) (html_rows @ [html_row vals]))"

definition html_head :: "str \<Rightarrow> str" where
  "html_head subject_date =
     ascii ''<html><body>'' @
     ascii ''<p>Upcoming IPOs scheduled within the next week as of '' @ subject_date @ ascii '':</p>'' @
     ascii ''<table border='' @ [0x27] @ ascii ''1'' @ [0x27] @
     ascii '' cellpadding='' @ [0x27] @ ascii ''5'' @ [0x27] @
     ascii '' cellspacing='' @ [0x27] @ ascii ''0'' @ [0x27] @ ascii ''>'' @
     ascii ''<thead>'' @
     ascii ''<tr>'' @
     ascii ''<th>IPO Date</th><th>Symbol</th><th>Company</th><th>Exchange</th>'' @
     ascii ''<th>Price Range</th><th>Shares Offered</th><th>Deal Size</th><th>Market Cap</th>'' @
     ascii ''</tr>'' @
     ascii ''</thead>'' @
     ascii ''<tbody>''"

definition html_tail :: str where
  "html_tail =
     ascii ''</tbody>'' @
     ascii ''</table>'' @
     ascii ''<p style='' @ [0x27] @ ascii ''margin-top:1em;'' @ [0x27] @
     ascii ''>This information is sourced from StockAnalysis'' @ [0x27] @ ascii '' IPO calendar. '' @
     ascii ''Please note that IPO dates and valuations may change as companies update '' @
     ascii ''their filings'' @ [0x3010] @ ascii ''153199201465310'' @
     [0x2020] @ ascii ''L83-L96'' @ [0x3011] @ ascii ''.</p>'' @
     ascii ''</body></html>''"

definition html_body :: "str \<Rightarrow> str list \<Rightarrow> str" where
  "html_body subject_date html_rows = html_head subject_date @ concat html_rows @ html_tail"

definition no_ipos_text :: "str \<Rightarrow> str" where
  "no_ipos_text subject_date =
     ascii ''There are no IPOs scheduled within the upcoming week as of '' @ subject_date @ ascii ''.''"

definition compose_email :: "world \<Rightarrow> ipo list \<Rightarrow> tz option \<Rightarrow> error + message" where
  "compose_email w ipos tz_arg =
     (case tz_or_default w tz_arg of
        Inl e \<Rightarrow> Inl e
      | Inr z \<Rightarrow>
          let subject_date = strftime (now w z);
              subj = ascii ''Upcoming IPOs '' @ [0x2013] @ ascii '' Week of '' @
                     subject_date
          in
          (case environ_get w (ascii ''GMAIL_USER'') of
             Inl e \<Rightarrow> Inl e
           | Inr from_addr \<Rightarrow>
          (case environ_get w (ascii ''RECIPIENT'') of
             Inl e \<Rightarrow> Inl e
           | Inr to_addr \<Rightarrow>
               if ipos = [] then
                 let plain_text = no_ipos_text subject_date in
                 Inr \<lparr>subject = subj, sender = from_addr, recipient = to_addr,
                      plain = plain_text, html = ascii ''<p>'' @ plain_text @ ascii ''</p>''\<rparr>
               else
                 (case compose_loop ipos [header] [] of
                    Inl e \<Rightarrow> Inl e
                  | Inr (lines, html_rows) \<Rightarrow>
                      Inr \<lparr>subject = subj, sender = from_addr, recipient = to_addr,
                           plain = join newline lines,
                           html = html_body subject_date html_rows\<rparr>))))"

subsection \<open>\<^verbatim>\<open>send_email\<close> and \<^verbatim>\<open>main\<close>\<close>

text \<open>The three environment reads come before the connection is opened; the
  \<^verbatim>\<open>with\<close> block closes the connection on every way out of it.\<close>

definition send_email :: "world \<Rightarrow> message \<Rightarrow> event list \<times> (error + unit)" where
  "send_email w msg =
     (case environ_get w (ascii ''GMAIL_USER'') of
        Inl e \<Rightarrow> ([], Inl e)
      | Inr gmail_user \<Rightarrow>
     (case environ_get w (ascii ''GMAIL_PASS'') of
        Inl e \<Rightarrow> ([], Inl e)
      | Inr gmail_password \<Rightarrow>
     (case environ_get w (ascii ''RECIPIENT'') of
        Inl e \<Rightarrow> ([], Inl e)
      | Inr to_addr \<Rightarrow>
     (case smtp_connect w of
        Some e \<Rightarrow> ([SmtpConnect (ascii ''smtp.gmail.com'') 465], Inl e)
      | None \<Rightarrow>
     (case smtp_login w gmail_user gmail_password of
        Some e \<Rightarrow>
          ([SmtpConnect (ascii ''smtp.gmail.com'') 465, SmtpLogin gmail_user gmail_password,
            SmtpClose], Inl e)
      | None \<Rightarrow>
     (case smtp_sendmail w of
        Some e \<Rightarrow>
          ([SmtpConnect (ascii ''smtp.gmail.com'') 465, SmtpLogin gmail_user gmail_password,
            SmtpSendmail gmail_user [to_addr] msg, SmtpClose], Inl e)
      | None \<Rightarrow>
          ([SmtpConnect (ascii ''smtp.gmail.com'') 465, SmtpLogin gmail_user gmail_password,
            SmtpSendmail gmail_user [to_addr] msg, SmtpClose], Inr ())))))))"

text \<open>What a run leaves behind: the network actions in order, the exception the
  top-level handler caught (if any), and the exit status.\<close>

record outcome =
  events :: "event list"
  raised :: "error option"
  exit_status :: nat

definition main :: "world \<Rightarrow> outcome" where
  "main w =
     (case get_upcoming_ipos w default_url of
        (ev1, Inl e) \<Rightarrow> \<lparr>events = ev1, raised = Some e, exit_status = 1\<rparr>
      | (ev1, Inr all_ipos) \<Rightarrow>
     (case filter_upcoming w all_ipos 7 None of
        Inl e \<Rightarrow> \<lparr>events = ev1, raised = Some e, exit_status = 1\<rparr>
      | Inr upcoming_ipos \<Rightarrow>
     (case compose_email w upcoming_ipos None of
        Inl e \<Rightarrow> \<lparr>events = ev1, raised = Some e, exit_status = 1\<rparr>
      | Inr email_msg \<Rightarrow>
     (case send_email w email_msg of
        (ev2, Inl e) \<Rightarrow> \<lparr>events = ev1 @ ev2, raised = Some e, exit_status = 1\<rparr>
      | (ev2, Inr u) \<Rightarrow> \<lparr>events = ev1 @ ev2, raised = None, exit_status = 0\<rparr>))))"

fun is_smtp :: "event \<Rightarrow> bool" where
  "is_smtp (HttpGet url) = False"
| "is_smtp e = True"

subsection \<open>Notions of the specification\<close>

text \<open>A record whose date field is present and is rejected by the fixed format.\<close>

definition date_unparseable :: "world \<Rightarrow> ipo \<Rightarrow> bool" where
  "date_unparseable w r =
     (case r (ascii ''date'') of
        None \<Rightarrow> False
      | Some s \<Rightarrow> (case strptime w s of Inl e \<Rightarrow> True | Inr d \<Rightarrow> False))"

text \<open>What the filter returns when "today" is the date of the clock in zone \<open>z\<close>: the
  records in the window from that date, or the overflow of the date arithmetic.\<close>

definition window_from :: "world \<Rightarrow> tz \<Rightarrow> ipo list \<Rightarrow> int \<Rightarrow> error + ipo list" where
  "window_from w z ipos days_ahead =
     (let today = toordinal (now w z) in
      if 999999999 < \<bar>days_ahead\<bar> then Inl OverflowError
      else if MINORDINAL \<le> today + days_ahead \<and> today + days_ahead \<le> MAXORDINAL
        then Inr (filter (in_window w z today days_ahead) ipos)
      else Inl OverflowError)"

text \<open>The subject line for an as-of date.\<close>

definition subject_line :: "str \<Rightarrow> str" where
  "subject_line as_of = ascii ''Upcoming IPOs '' @ [0x2013] @ ascii '' Week of '' @ as_of"

text \<open>The page has an element with the given name somewhere below its root.\<close>

fun contains_tag :: "str \<Rightarrow> node \<Rightarrow> bool" where
  "contains_tag name (Text s) = False"
| "contains_tag name (Elem t cs) = list_ex (\<lambda>c. is_tag name c \<or> contains_tag name c) cs"

text \<open>The request succeeded and the parsed body is \<open>page\<close>.\<close>

definition http_ok :: "world \<Rightarrow> str \<Rightarrow> node \<Rightarrow> bool" where
  "http_ok w url page =
     (case http_get w url of
        Inl e \<Rightarrow> False
      | Inr resp \<Rightarrow> \<not> (400 \<le> status_code resp \<and> status_code resp < 600) \<and> soup resp = page)"

text \<open>
  The rows the loops visit: for every table body of the page in document order, every
  row below it (a row below two nested table bodies is visited once for each), those
  with at least eight cells being accepted; and the record a row is mapped to: the first
  eight cell texts by position, the ninth as revenue when there is one, the placeholder
  otherwise.
\<close>

definition accepted_rows :: "node \<Rightarrow> node list" where
  "accepted_rows page =
     filter (\<lambda>row. 8 \<le> length (find_all (ascii ''td'') row))
       (concat (map (find_all (ascii ''tr'')) (find_all (ascii ''tbody'') page)))"

definition row_record :: "node \<Rightarrow> ipo" where
  "row_record row =
     (let cells = find_all (ascii ''td'') row in
      [ascii ''date'' \<mapsto> get_text (cells ! 0),
       ascii ''symbol'' \<mapsto> get_text (cells ! 1),
       ascii ''company'' \<mapsto> get_text (cells ! 2),
       ascii ''exchange'' \<mapsto> get_text (cells ! 3),
       ascii ''price_range'' \<mapsto> get_text (cells ! 4),
       ascii ''shares_offered'' \<mapsto> get_text (cells ! 5),
       ascii ''deal_size'' \<mapsto> get_text (cells ! 6),
       ascii ''market_cap'' \<mapsto> get_text (cells ! 7),
       ascii ''revenue'' \<mapsto> (if 8 < length cells then get_text (cells ! 8) else ascii ''-'')])"

text \<open>
  The number of newline-separated lines of a text (\<^verbatim>\<open>len(s.split("\n"))\<close>) and
  the number of occurrences of the row marker \<^verbatim>\<open><tr>\<close> in it
  (\<^verbatim>\<open>s.count("<tr>")\<close>).
\<close>

fun split_on :: "nat \<Rightarrow> str \<Rightarrow> str list" where
  "split_on c [] = [[]]"
| "split_on c (x # xs) =
     (if x = c then [] # split_on c xs
      else (case split_on c xs of [] \<Rightarrow> [[x]] | l # ls \<Rightarrow> (x # l) # ls))"

definition line_count :: "str \<Rightarrow> nat" where
  "line_count s = length (split_on 0x0A s)"

fun count_sub :: "str \<Rightarrow> str \<Rightarrow> nat" where
  "count_sub p [] = 0"
| "count_sub p (x # xs) = (if prefix p (x # xs) then 1 else 0) + count_sub p xs"

definition row_marker_count :: "str \<Rightarrow> nat" where
  "row_marker_count s = count_sub (ascii ''<tr>'') s"

text \<open>The values of the eight rendered columns of a record, the records that have all
  eight, the field values without a newline, and those without \<^verbatim>\<open><\<close>.\<close>

definition column_values :: "ipo \<Rightarrow> str list" where
  "column_values r = map (\<lambda>k. case r k of None \<Rightarrow> [] | Some v \<Rightarrow> v) rendered_columns"

definition has_columns :: "ipo \<Rightarrow> bool" where
  "has_columns r = list_all (\<lambda>k. r k \<noteq> None) rendered_columns"

definition no_newline :: "str \<Rightarrow> bool" where
  "no_newline v = (0x0A \<notin> set v)"

definition no_lt :: "str \<Rightarrow> bool" where
  "no_lt v = (cp CHR ''<'' \<notin> set v)"

text \<open>Two records that agree on every key other than revenue.\<close>

definition agree_but_revenue :: "ipo \<Rightarrow> ipo \<Rightarrow> bool" where
  "agree_but_revenue a b = (\<forall>k. k \<noteq> ascii ''revenue'' \<longrightarrow> a k = b k)"

subsection \<open>Example inputs\<close>

definition ex_env :: "str \<rightharpoonup> str" where
  "ex_env = [ascii ''GMAIL_USER'' \<mapsto> ascii ''bot@example.com'',
             ascii ''GMAIL_PASS'' \<mapsto> ascii ''app-password'',
             ascii ''RECIPIENT'' \<mapsto> ascii ''desk@example.com'']"

definition ex_ipo :: "str \<Rightarrow> string \<Rightarrow> ipo" where
  "ex_ipo d tick = [ascii ''date'' \<mapsto> d, ascii ''symbol'' \<mapsto> ascii tick,
     ascii ''company'' \<mapsto> ascii ''Acme Corp'', ascii ''exchange'' \<mapsto> ascii ''NYSE'',
     ascii ''price_range'' \<mapsto> ascii ''$10.00 - $12.00'',
     ascii ''shares_offered'' \<mapsto> ascii ''5,000,000'', ascii ''deal_size'' \<mapsto> ascii ''$55M'',
     ascii ''market_cap'' \<mapsto> ascii ''$400M'', ascii ''revenue'' \<mapsto> ascii ''-'']"

text \<open>Dates written with a no-break space (U+00A0) after the month, and with the year
  in fullwidth digits (U+FF10 and following).\<close>

definition nbsp_date :: str where
  "nbsp_date = ascii ''Aug'' @ [0xA0] @ ascii ''5, 2025''"

definition fullwidth_date :: str where
  "fullwidth_date = ascii ''Aug 6, '' @ [0xFF12, 0xFF10, 0xFF12, 0xFF15]"

definition ex_ipos :: "ipo list" where
  "ex_ipos = [ex_ipo (ascii ''Aug 3, 2025'') ''YDAY'', ex_ipo (ascii ''Aug 4, 2025'') ''TDAY'',
              ex_ipo nbsp_date ''NBSP'', ex_ipo (ascii ''TBD'') ''NODATE'',
              ex_ipo fullwidth_date ''FULL'', ex_ipo (ascii ''Aug 11, 2025'') ''LAST'',
              ex_ipo (ascii ''Aug 12, 2025'') ''LATE'']"

definition ex_kept :: "ipo list" where
  "ex_kept = [ex_ipo (ascii ''Aug 4, 2025'') ''TDAY'', ex_ipo nbsp_date ''NBSP'',
              ex_ipo fullwidth_date ''FULL'', ex_ipo (ascii ''Aug 11, 2025'') ''LAST'']"

definition td :: "str \<Rightarrow> node" where
  "td s = Elem (ascii ''td'') [Text s]"

definition ex_row :: "str \<Rightarrow> string \<Rightarrow> node" where
  "ex_row d tick = Elem (ascii ''tr'') [td d, td (ascii tick), td (ascii ''Acme Corp''),
     td (ascii ''NYSE''), td (ascii ''$10.00 - $12.00''), td (ascii ''5,000,000''),
     td (ascii ''$55M''), td (ascii ''$400M'')]"

text \<open>The first date cell of the page is padded with a no-break space and an em space
  (U+2003), the second with ordinary spaces.\<close>

definition padded_date :: str where
  "padded_date = [0xA0] @ ascii ''Aug 3, 2025'' @ [0x2003]"

definition ex_page :: node where
  "ex_page = Elem (ascii ''[document]'') [Elem (ascii ''html'') [Elem (ascii ''body'')
     [Elem (ascii ''table'')
       [Elem (ascii ''thead'') [Elem (ascii ''tr'') [Elem (ascii ''th'') [Text (ascii ''IPO Date'')]]],
        Elem (ascii ''tbody'')
          [ex_row padded_date ''YDAY'',
           ex_row (ascii '' Aug 4, 2025 '') ''TDAY'',
           Elem (ascii ''tr'') [td (ascii ''short''), td (ascii ''row'')],
           ex_row nbsp_date ''NBSP'',
           ex_row (ascii ''TBD'') ''NODATE'',
           ex_row fullwidth_date ''FULL'',
           ex_row (ascii ''Aug 11, 2025'') ''LAST'',
           ex_row (ascii ''Aug 12, 2025'') ''LATE'']]]]]"

text \<open>On the example clock it is 4 August 2025 in New York and already the 5th
  elsewhere.\<close>

definition new_york :: tz where
  "new_york = Tz (ascii ''America/New_York'')"

definition ex_now :: "tz \<Rightarrow> datetime" where
  "ex_now z = (if z = new_york then \<lparr>year = 2025, month = 8, day = 4\<rparr>
               else \<lparr>year = 2025, month = 8, day = 5\<rparr>)"

definition ex_world :: world where
  "ex_world = \<lparr>environ = ex_env,
               known_zone = (\<lambda>n. n = ascii ''America/New_York'' \<or> n = ascii ''UTC''),
               now = ex_now,
               digit_zeros = [0x660, 0x6F0, 0x966, 0xFF10],
               http_get = (\<lambda>url. Inr \<lparr>status_code = 200, soup = ex_page\<rparr>),
               smtp_connect = None, smtp_login = (\<lambda>user pass. None), smtp_sendmail = None\<rparr>"

text \<open>A row of ten cells, alone in its table body.\<close>

definition wide_row :: node where
  "wide_row = Elem (ascii ''tr'') [td (ascii ''Aug 4, 2025''), td (ascii ''WIDE''),
     td (ascii ''Wide Corp''), td (ascii ''NASDAQ''), td (ascii ''$1 - $2''), td (ascii ''100''),
     td (ascii ''$150''), td (ascii ''$900''), td (ascii ''$7M''), td (ascii ''extra'')]"

definition wide_page :: node where
  "wide_page = Elem (ascii ''[document]'') [Elem (ascii ''table'') [Elem (ascii ''tbody'') [wide_row]]]"

definition wide_ipo :: ipo where
  "wide_ipo = [ascii ''date'' \<mapsto> ascii ''Aug 4, 2025'', ascii ''symbol'' \<mapsto> ascii ''WIDE'',
     ascii ''company'' \<mapsto> ascii ''Wide Corp'', ascii ''exchange'' \<mapsto> ascii ''NASDAQ'',
     ascii ''price_range'' \<mapsto> ascii ''$1 - $2'', ascii ''shares_offered'' \<mapsto> ascii ''100'',
     ascii ''deal_size'' \<mapsto> ascii ''$150'', ascii ''market_cap'' \<mapsto> ascii ''$900'',
     ascii ''revenue'' \<mapsto> ascii ''$7M'']"

definition wide_world :: world where
  "wide_world = ex_world\<lparr>http_get := (\<lambda>url. Inr \<lparr>status_code = 200, soup = wide_page\<rparr>)\<rparr>"

text \<open>A table whose row sits directly under \<^verbatim>\<open>table\<close>, with no table body.\<close>

definition bare_page :: node where
  "bare_page = Elem (ascii ''[document]'') [Elem (ascii ''html'') [Elem (ascii ''body'')
     [Elem (ascii ''table'') [ex_row (ascii ''Aug 4, 2025'') ''TDAY'']]]]"

definition bare_world :: world where
  "bare_world = ex_world\<lparr>http_get := (\<lambda>url. Inr \<lparr>status_code = 200, soup = bare_page\<rparr>)\<rparr>"

text \<open>The example environment without the app password.\<close>

definition nopass_world :: world where
  "nopass_world = ex_world\<lparr>environ := ex_env(ascii ''GMAIL_PASS'' := None)\<rparr>"

definition ex_one :: "ipo list" where
  "ex_one = [ex_ipo (ascii ''Aug 4, 2025'') ''TDAY'']"

text \<open>A record whose company name carries markup, one whose company name holds a
  newline, and one with a revenue figure.\<close>

definition ex_markup :: ipo where
  "ex_markup = (ex_ipo (ascii ''Aug 4, 2025'') ''TDAY'')
                 (ascii ''company'' \<mapsto> ascii ''<b>R&D</b> Corp'')"

definition ex_two_lines :: ipo where
  "ex_two_lines = (ex_ipo (ascii ''Aug 4, 2025'') ''TDAY'')
                    (ascii ''company'' \<mapsto> ascii ''Acme'' @ [0x0A] @ ascii ''Corp'')"

definition ex_revenue :: ipo where
  "ex_revenue = (ex_ipo (ascii ''Aug 4, 2025'') ''TDAY'')(ascii ''revenue'' \<mapsto> ascii ''$1.2B'')"

section \<open>Calendar arithmetic\<close>

lemma days_before_year_Suc:
  assumes "1 \<le> y"
  shows "days_before_year (Suc y) = days_before_year y + days_in_year y"
proof -
  from assms obtain k where k: "y = Suc k" by (cases y) auto
  define a b c where "a = k div 4" and "b = k div 100" and "c = k div 400"
  have d4: "Suc k div 4 = (if Suc k mod 4 = 0 then Suc a else a)"
    by (simp add: div_Suc a_def)
  have d100: "Suc k div 100 = (if Suc k mod 100 = 0 then Suc b else b)"
    by (simp add: div_Suc b_def)
  have d400: "Suc k div 400 = (if Suc k mod 400 = 0 then Suc c else c)"
    by (simp add: div_Suc c_def)
  have le: "b \<le> a"
    unfolding a_def b_def by (rule div_le_mono2) simp_all
  have m1: "Suc k mod 100 = 0 \<Longrightarrow> Suc k mod 4 = 0"
    using dvd_trans[of 4 100 "Suc k"] by (simp add: mod_eq_0_iff_dvd)
  have m2: "Suc k mod 400 = 0 \<Longrightarrow> Suc k mod 100 = 0"
    using dvd_trans[of 100 400 "Suc k"] by (simp add: mod_eq_0_iff_dvd)
  have l: "days_before_year (Suc y) = y * 365 + y div 4 - y div 100 + y div 400"
    by (simp add: days_before_year_def)
  have r: "days_before_year y = k * 365 + a - b + c"
    by (simp add: k days_before_year_def a_def b_def c_def)
  show ?thesis
  proof (cases "Suc k mod 4 = 0")
    case n4: False
    with m1 have n100: "Suc k mod 100 \<noteq> 0" by blast
    with m2 have n400: "Suc k mod 400 \<noteq> 0" by blast
    from n4 n100 n400
    have "y div 4 = a" "y div 100 = b" "y div 400 = c" "days_in_year y = 365"
      by (simp_all add: k d4 d100 d400 days_in_year_def is_leap_def)
    with le show ?thesis unfolding l r by (simp add: k)
  next
    case y4: True
    show ?thesis
    proof (cases "Suc k mod 100 = 0")
      case n100: False
      with m2 have n400: "Suc k mod 400 \<noteq> 0" by blast
      from y4 n100 n400
      have "y div 4 = Suc a" "y div 100 = b" "y div 400 = c" "days_in_year y = 366"
        by (simp_all add: k d4 d100 d400 days_in_year_def is_leap_def)
      with le show ?thesis unfolding l r by (simp add: k)
    next
      case y100: True
      show ?thesis
      proof (cases "Suc k mod 400 = 0")
        case n400: False
        from y4 y100 n400
        have "y div 4 = Suc a" "y div 100 = Suc b" "y div 400 = c" "days_in_year y = 365"
          by (simp_all add: k d4 d100 d400 days_in_year_def is_leap_def)
        with le show ?thesis unfolding l r by (simp add: k)
      next
        case y400: True
        from y4 y100 y400
        have "y div 4 = Suc a" "y div 100 = Suc b" "y div 400 = Suc c" "days_in_year y = 366"
          by (simp_all add: k d4 d100 d400 days_in_year_def is_leap_def)
        with le show ?thesis unfolding l r by (simp add: k)
      qed
    qed
  qed
qed

lemma days_before_year_mono:
  "1 \<le> y \<Longrightarrow> y < y' \<Longrightarrow> days_before_year y + days_in_year y \<le> days_before_year y'"
proof (induction y')
  case 0
  then show ?case by simp
next
  case (Suc y')
  show ?case
  proof (cases "y = y'")
    case True
    with Suc.prems show ?thesis by (simp add: days_before_year_Suc)
  next
    case False
    with Suc have "days_before_year y + days_in_year y \<le> days_before_year y'" by simp
    moreover have "days_before_year (Suc y') = days_before_year y' + days_in_year y'"
      using Suc.prems False by (intro days_before_year_Suc) simp
    ultimately show ?thesis by simp
  qed
qed

lemma days_before_month_Suc:
  assumes "1 \<le> m" and "m \<le> 11"
  shows "days_before_month y (Suc m) = days_before_month y m + days_in_month y m"
proof -
  from assms have "m = 1 \<or> m = 2 \<or> m = 3 \<or> m = 4 \<or> m = 5 \<or> m = 6 \<or> m = 7 \<or> m = 8
                   \<or> m = 9 \<or> m = 10 \<or> m = 11"
    by arith
  then show ?thesis
    by (elim disjE) (simp_all add: days_before_month_def days_in_month_def)
qed

lemma days_before_month_last:
  "days_before_month y 12 + days_in_month y 12 = days_in_year y"
  by (simp add: days_before_month_def days_in_month_def days_in_year_def)

lemma days_before_month_mono:
  "1 \<le> m \<Longrightarrow> m < m' \<Longrightarrow> m' \<le> 12 \<Longrightarrow>
     days_before_month y m + days_in_month y m \<le> days_before_month y m'"
proof (induction m')
  case 0
  then show ?case by simp
next
  case (Suc m')
  show ?case
  proof (cases "m = m'")
    case True
    with Suc.prems show ?thesis by (simp add: days_before_month_Suc)
  next
    case False
    with Suc have "days_before_month y m + days_in_month y m \<le> days_before_month y m'" by simp
    moreover have "days_before_month y (Suc m') = days_before_month y m' + days_in_month y m'"
      using Suc.prems False by (intro days_before_month_Suc) simp_all
    ultimately show ?thesis by simp
  qed
qed

lemma day_of_year_le:
  assumes "valid_datetime a"
  shows "days_before_month (year a) (month a) + day a \<le> days_in_year (year a)"
proof (cases "month a = 12")
  case True
  with assms show ?thesis
    using days_before_month_last[of "year a"] by (simp add: valid_datetime_def)
next
  case False
  with assms have "days_before_month (year a) (month a) + days_in_month (year a) (month a)
                   \<le> days_before_month (year a) 12"
    by (intro days_before_month_mono) (simp_all add: valid_datetime_def)
  with assms days_before_month_last[of "year a"] show ?thesis
    by (simp add: valid_datetime_def)
qed

lemma toordinal_strict_mono:
  assumes "valid_datetime a" and "valid_datetime b" and "earlier a b"
  shows "toordinal a < toordinal b"
proof -
  consider (y) "year a < year b"
    | (m) "year a = year b" "month a < month b"
    | (d) "year a = year b" "month a = month b" "day a < day b"
    using assms(3) by (auto simp: earlier_def)
  then show ?thesis
  proof cases
    case y
    with assms(1) have "days_before_year (year a) + days_in_year (year a)
                        \<le> days_before_year (year b)"
      by (intro days_before_year_mono) (simp_all add: valid_datetime_def)
    with day_of_year_le[OF assms(1)] assms(2) show ?thesis
      by (simp add: toordinal_def valid_datetime_def)
  next
    case m
    with assms have "days_before_month (year a) (month a) + days_in_month (year a) (month a)
                     \<le> days_before_month (year a) (month b)"
      by (intro days_before_month_mono) (simp_all add: valid_datetime_def)
    with m assms show ?thesis by (simp add: toordinal_def valid_datetime_def)
  next
    case d
    then show ?thesis by (simp add: toordinal_def)
  qed
qed

lemma toordinal_le_iff:
  assumes "valid_datetime a" and "valid_datetime b"
  shows "toordinal a \<le> toordinal b \<longleftrightarrow> \<not> earlier b a"
proof
  assume "toordinal a \<le> toordinal b"
  then show "\<not> earlier b a" using toordinal_strict_mono[OF assms(2,1)] by auto
next
  assume n: "\<not> earlier b a"
  show "toordinal a \<le> toordinal b"
  proof (cases "earlier a b")
    case True
    then show ?thesis using toordinal_strict_mono[OF assms] by simp
  next
    case False
    with n have "year a = year b \<and> month a = month b \<and> day a = day b"
      by (auto simp: earlier_def)
    then show ?thesis by (simp add: toordinal_def)
  qed
qed

lemma toordinal_range:
  assumes "valid_datetime a" and "year a \<le> 9999"
  shows "MINORDINAL \<le> toordinal a \<and> toordinal a \<le> MAXORDINAL"
proof -
  have "days_before_year (year a) + days_in_year (year a) \<le> days_before_year 10000"
    using assms by (intro days_before_year_mono) (simp_all add: valid_datetime_def)
  moreover have "days_before_year 10000 = 3652059"
    by (simp add: days_before_year_def)
  ultimately show ?thesis using day_of_year_le[OF assms(1)] assms(1)
    by (simp add: toordinal_def valid_datetime_def MINORDINAL_def MAXORDINAL_def)
qed

text \<open>What \<open>strptime\<close> returns is a date of the calendar, so the comparisons of
  the filter are comparisons of calendar dates.\<close>

lemma ascii_eq_iff: "ascii a = ascii b \<longleftrightarrow> a = b"
  by (simp add: ascii_def inj_map_eq_map[OF inj_of_char])

lemma index_of_less: "index_of xs x = Some i \<Longrightarrow> i < length xs"
  by (induction xs arbitrary: i) (auto split: if_splits)

lemma decimal_le: "decimal w c = Some v \<Longrightarrow> v \<le> 9"
  by (auto simp: decimal_def cp_def find_Some_iff split: if_splits option.splits)

lemma digit_val_le: "digit_val w c \<le> 9"
  by (auto simp: digit_val_def split: option.splits dest: decimal_le)

lemma match_month_range: "match_month s = Some (m, r) \<Longrightarrow> 1 \<le> m \<and> m \<le> 12"
  by (auto simp: match_month_def month_abbr_def split: if_splits option.splits
      dest!: index_of_less)

lemma match_day_pos: "match_day w s = Some (d, r) \<Longrightarrow> 1 \<le> d"
  by (induction w s rule: match_day.induct)
     (auto simp: in_range_def cp_def split: if_splits)

lemma match_year_le: "match_year w s = Some (y, r) \<Longrightarrow> y \<le> 9999"
proof -
  assume a: "match_year w s = Some (y, r)"
  then have l: "4 \<le> length s" and y: "y = int_of_digits w (take 4 s)"
    by (auto simp: match_year_def split: if_splits)
  from l obtain a b c e rest where s: "s = a # b # c # e # rest"
    by (cases s; simp; rename_tac s1; case_tac s1; simp; rename_tac s2; case_tac s2; simp;
        rename_tac s3; case_tac s3; simp)
  have "digit_val w a \<le> 9" "digit_val w b \<le> 9" "digit_val w c \<le> 9" "digit_val w e \<le> 9"
    by (rule digit_val_le)+
  with y s show ?thesis by (simp add: int_of_digits_def)
qed

lemma strptime_valid:
  assumes "strptime w s = Inr d"
  shows "valid_datetime d \<and> year d \<le> 9999"
  using assms
  by (auto simp: strptime_def valid_datetime_def
      split: option.splits prod.splits if_splits
      dest: match_month_range match_day_pos match_year_le)

section \<open>Evaluating the examples\<close>

lemmas strptime_eval = strptime_def match_month_def match_spaces_def match_comma_def match_year_def
  month_abbr_def lower_def lower_char_def is_space_def is_digit_def digit_val_def decimal_def
  int_of_digits_def in_range_def cp_def ascii_def days_in_month_def no_match_def

lemmas date_eval = toordinal_def days_before_year_def days_before_month_def is_leap_def
  MINORDINAL_def MAXORDINAL_def

lemma ex_world_sel:
  "environ ex_world = ex_env" "now ex_world = ex_now"
  "known_zone ex_world = (\<lambda>n. n = ascii ''America/New_York'' \<or> n = ascii ''UTC'')"
  "digit_zeros ex_world = [0x660, 0x6F0, 0x966, 0xFF10]"
  "http_get ex_world = (\<lambda>url. Inr \<lparr>status_code = 200, soup = ex_page\<rparr>)"
  "smtp_connect ex_world = None" "smtp_login ex_world = (\<lambda>user pass. None)"
  "smtp_sendmail ex_world = None"
  by (simp_all add: ex_world_def)

lemma ex_ipo_date: "ex_ipo d tick (ascii ''date'') = Some d"
  by (simp add: ex_ipo_def ascii_eq_iff)

lemma ex_tz: "tz_or_default ex_world None = Inr new_york"
  by (simp add: tz_or_default_def pytz_timezone_def getenv_def ex_world_sel ex_env_def
      new_york_def ascii_eq_iff)

lemma ex_today: "toordinal (now ex_world new_york) = 739467"
  by (simp add: ex_world_sel ex_now_def date_eval)

lemma ex_now_valid:
  "valid_datetime (now ex_world new_york)"
  "year (now ex_world new_york) \<le> 9999"
  by (simp_all add: ex_world_sel ex_now_def valid_datetime_def days_in_month_def is_leap_def)

text \<open>The format accepts white space and digits outside ASCII, as the library does.\<close>

lemma ex_strptime_nbsp:
  "strptime ex_world nbsp_date = Inr \<lparr>year = 2025, month = 8, day = 5\<rparr>"
  by (simp add: nbsp_date_def ex_world_sel strptime_eval is_leap_def)

lemma ex_strptime_fullwidth:
  "strptime ex_world fullwidth_date = Inr \<lparr>year = 2025, month = 8, day = 6\<rparr>"
  by (simp add: fullwidth_date_def ex_world_sel strptime_eval is_leap_def)

lemma ex_strptime_tbd: "strptime ex_world (ascii ''TBD'') = Inl no_match"
  by (simp add: ex_world_sel strptime_eval)

lemma ex_strptime_ascii:
  "strptime ex_world (ascii ''Aug 3, 2025'') = Inr \<lparr>year = 2025, month = 8, day = 3\<rparr>"
  "strptime ex_world (ascii ''Aug 4, 2025'') = Inr \<lparr>year = 2025, month = 8, day = 4\<rparr>"
  "strptime ex_world (ascii ''Aug 11, 2025'') = Inr \<lparr>year = 2025, month = 8, day = 11\<rparr>"
  "strptime ex_world (ascii ''Aug 12, 2025'') = Inr \<lparr>year = 2025, month = 8, day = 12\<rparr>"
  by (simp_all add: ex_world_sel strptime_eval is_leap_def)

lemmas ex_strptime = ex_strptime_nbsp ex_strptime_fullwidth ex_strptime_tbd ex_strptime_ascii

lemma ex_in_window:
  "filter (in_window ex_world new_york 739467 7) ex_ipos = ex_kept"
  by (simp add: ex_ipos_def ex_kept_def in_window_def try_parse_def getitem_def ex_ipo_date
      parse_date_def localize_def ex_strptime date_eval)

section \<open>The date filter\<close>

text \<open>The loop is a filter, and the call returns it whenever the end date exists.\<close>

lemma filter_loop_eq:
  "filter_loop w z today end_date ipos upcoming =
     upcoming @ filter (in_window w z today (end_date - today)) ipos"
  by (induction ipos arbitrary: upcoming) (auto simp: in_window_def split: sum.splits)

lemma filter_upcoming_eq_window_from:
  assumes "tz_or_default w tz_arg = Inr z"
  shows "filter_upcoming w ipos days_ahead tz_arg = window_from w z ipos days_ahead"
  using assms
  by (simp add: filter_upcoming_def window_from_def timedelta_def date_add_def filter_loop_eq
      Let_def)

lemma filter_upcoming_returns:
  assumes "tz_or_default w tz_arg = Inr z"
    and "MINORDINAL \<le> toordinal (now w z)" and "toordinal (now w z) \<le> MAXORDINAL"
    and "MINORDINAL \<le> toordinal (now w z) + days_ahead"
    and "toordinal (now w z) + days_ahead \<le> MAXORDINAL"
  shows "filter_upcoming w ipos days_ahead tz_arg =
           Inr (filter (in_window w z (toordinal (now w z)) days_ahead) ipos)"
  using assms
  by (simp add: filter_upcoming_def timedelta_def date_add_def filter_loop_eq
      MINORDINAL_def MAXORDINAL_def Let_def)

lemma filter_upcoming_Inr:
  assumes "filter_upcoming w ipos days_ahead tz_arg = Inr out"
  shows "\<exists>z. tz_or_default w tz_arg = Inr z \<and>
             out = filter (in_window w z (toordinal (now w z)) days_ahead) ipos"
  using assms
  by (auto simp: filter_upcoming_def timedelta_def date_add_def filter_loop_eq Let_def
      split: sum.splits if_splits)

text \<open>Outside that range the date arithmetic raises before the loop starts.\<close>

lemma filter_upcoming_out_of_range:
  assumes "tz_or_default w tz_arg = Inr z"
    and "\<not> (MINORDINAL \<le> toordinal (now w z) + days_ahead
             \<and> toordinal (now w z) + days_ahead \<le> MAXORDINAL)"
  shows "filter_upcoming w ipos days_ahead tz_arg = Inl OverflowError"
  using assms
  by (auto simp: filter_upcoming_def timedelta_def date_add_def Let_def)

lemma unparseable_not_in_window:
  "date_unparseable w r \<Longrightarrow> \<not> in_window w z today days_ahead r"
  by (auto simp: date_unparseable_def in_window_def try_parse_def getitem_def parse_date_def
      split: option.splits sum.splits)

text \<open>
  Claim C1. Let the zone resolve to \<open>z\<close> and let \<open>today\<close> be the date of
  \<^verbatim>\<open>datetime.now(z)\<close>, a date of the calendar. For every list of records and every
  window length for which \<open>today + days_ahead\<close> is a date the library can hold,
  \<open>filter_upcoming\<close> returns exactly the records whose
  date field parses to a date \<open>d\<close> with \<open>today \<le> d \<le> today + days_ahead\<close>, in input
  order. For a window of zero or more days a record dated today or today plus the window
  is kept, and one dated a day after the window or a day before today is dropped.
\<close>

theorem filter_upcoming_window:
  assumes "tz_or_default w tz_arg = Inr z"
    and "valid_datetime (now w z)" and "year (now w z) \<le> 9999"
    and "today = toordinal (now w z)"
    and "MINORDINAL \<le> today + days_ahead" and "today + days_ahead \<le> MAXORDINAL"
  shows "\<exists>out. filter_upcoming w ipos days_ahead tz_arg = Inr out
           \<and> out = filter (in_window w z today days_ahead) ipos
           \<and> (\<forall>r \<in> set ipos. 0 \<le> days_ahead \<longrightarrow>
                 (try_parse w r z = Inr today \<longrightarrow> r \<in> set out)
               \<and> (try_parse w r z = Inr (today + days_ahead) \<longrightarrow> r \<in> set out)
               \<and> (try_parse w r z = Inr (today + days_ahead + 1) \<longrightarrow> r \<notin> set out)
               \<and> (try_parse w r z = Inr (today - 1) \<longrightarrow> r \<notin> set out))"
proof -
  let ?out = "filter (in_window w z today days_ahead) ipos"
  have ret: "filter_upcoming w ipos days_ahead tz_arg = Inr ?out"
    using assms toordinal_range[of "now w z"]
      filter_upcoming_returns[of w tz_arg z days_ahead ipos] by simp
  have ends: "\<forall>r \<in> set ipos. 0 \<le> days_ahead \<longrightarrow>
                 (try_parse w r z = Inr today \<longrightarrow> r \<in> set ?out)
               \<and> (try_parse w r z = Inr (today + days_ahead) \<longrightarrow> r \<in> set ?out)
               \<and> (try_parse w r z = Inr (today + days_ahead + 1) \<longrightarrow> r \<notin> set ?out)
               \<and> (try_parse w r z = Inr (today - 1) \<longrightarrow> r \<notin> set ?out)"
    by (simp add: in_window_def)
  from ret ends show ?thesis by blast
qed

theorem filter_upcoming_window_witness:
  "filter_upcoming ex_world ex_ipos 7 None = Inr ex_kept"
  using filter_upcoming_window[of ex_world None new_york 739467 7 ex_ipos]
  by (simp add: ex_tz ex_today ex_now_valid ex_in_window MINORDINAL_def MAXORDINAL_def)

text \<open>
  Claim C4. Under the same conditions \<open>filter_upcoming\<close> returns a list (it raises no
  error) even when the input holds records whose date field the format rejects; no such
  record is in the output, and the output is what the call returns on the input with
  those records removed.
\<close>

theorem filter_upcoming_skips_unparseable:
  assumes "tz_or_default w tz_arg = Inr z"
    and "valid_datetime (now w z)" and "year (now w z) \<le> 9999"
    and "today = toordinal (now w z)"
    and "MINORDINAL \<le> today + days_ahead" and "today + days_ahead \<le> MAXORDINAL"
  shows "\<exists>out. filter_upcoming w ipos days_ahead tz_arg = Inr out
           \<and> (\<forall>r \<in> set ipos. date_unparseable w r \<longrightarrow> r \<notin> set out)
           \<and> filter_upcoming w (filter (\<lambda>r. \<not> date_unparseable w r) ipos) days_ahead tz_arg
               = Inr out"
proof -
  let ?P = "in_window w z today days_ahead"
  have ret: "filter_upcoming w xs days_ahead tz_arg = Inr (filter ?P xs)" for xs
    using assms toordinal_range[of "now w z"]
      filter_upcoming_returns[of w tz_arg z days_ahead xs] by simp
  have skip: "\<forall>r \<in> set ipos. date_unparseable w r \<longrightarrow> r \<notin> set (filter ?P ipos)"
    by (simp add: unparseable_not_in_window)
  have same: "filter ?P (filter (\<lambda>r. \<not> date_unparseable w r) ipos) = filter ?P ipos"
    by (induction ipos) (auto dest: unparseable_not_in_window)
  show ?thesis
    using ret[of ipos] ret[of "filter (\<lambda>r. \<not> date_unparseable w r) ipos"] skip same
    by simp
qed

lemma ex_unparseable: "date_unparseable ex_world (ex_ipo (ascii ''TBD'') ''NODATE'')"
  by (simp add: date_unparseable_def ex_ipo_date ex_strptime no_match_def)

lemma ex_parseable:
  "\<not> date_unparseable ex_world (ex_ipo nbsp_date ''NBSP'')"
  "\<not> date_unparseable ex_world (ex_ipo fullwidth_date ''FULL'')"
  by (simp_all add: date_unparseable_def ex_ipo_date ex_strptime)

theorem filter_upcoming_skips_unparseable_witness:
  "date_unparseable ex_world (ex_ipo (ascii ''TBD'') ''NODATE'')
   \<and> ex_ipo (ascii ''TBD'') ''NODATE'' \<in> set ex_ipos
   \<and> \<not> isl (filter_upcoming ex_world ex_ipos 7 None)
   \<and> ex_ipo (ascii ''TBD'') ''NODATE'' \<notin> set (projr (filter_upcoming ex_world ex_ipos 7 None))"
  using filter_upcoming_skips_unparseable[of ex_world None new_york 739467 7 ex_ipos]
  by (auto simp add: ex_tz ex_today ex_now_valid ex_unparseable MINORDINAL_def MAXORDINAL_def
      ex_ipos_def)

text \<open>
  Claim C7. Whatever list \<open>filter_upcoming\<close> returns is a subsequence of its input:
  the retained records are input records, unchanged, in their input order.
\<close>

theorem filter_upcoming_subseq:
  assumes "filter_upcoming w ipos days_ahead tz_arg = Inr out"
  shows "subseq out ipos \<and> set out \<subseteq> set ipos"
  using filter_upcoming_Inr[OF assms] by auto

theorem filter_upcoming_subseq_witness:
  "subseq ex_kept ex_ipos"
proof -
  have "filter_upcoming ex_world ex_ipos 7 None = Inr ex_kept"
    using filter_upcoming_returns[of ex_world None new_york 7 ex_ipos]
    by (simp add: ex_tz ex_today ex_in_window MINORDINAL_def MAXORDINAL_def)
  from filter_upcoming_subseq[OF this] show ?thesis by simp
qed

section \<open>The fetcher\<close>

lemma row_to_ipo_eq:
  "8 \<le> length (find_all (ascii ''td'') row) \<Longrightarrow>
     row_to_ipo (find_all (ascii ''td'') row) = Inr (row_record row)"
  by (auto simp: row_to_ipo_def cell_text_def row_record_def Let_def)

lemma rows_loop_eq:
  "rows_loop rows ipos =
     ipos @ map row_record (filter (\<lambda>row. 8 \<le> length (find_all (ascii ''td'') row)) rows)"
  by (induction rows arbitrary: ipos) (simp_all add: Let_def row_to_ipo_eq not_less)

lemma bodies_loop_eq:
  "bodies_loop bodies ipos =
     ipos @ map row_record (filter (\<lambda>row. 8 \<le> length (find_all (ascii ''td'') row))
                               (concat (map (find_all (ascii ''tr'')) bodies)))"
  by (induction bodies arbitrary: ipos) (simp_all add: rows_loop_eq)

lemma find_all_empty_iff: "find_all name n = [] \<longleftrightarrow> \<not> contains_tag name n"
proof (induction n)
  case (Text s)
  show ?case by (simp add: find_all_def)
next
  case (Elem t cs)
  have "(find_all name (Elem t cs) = []) =
          (\<forall>c \<in> set cs. \<not> is_tag name c \<and> find_all name c = [])"
    by (auto simp: find_all_def filter_empty_conv)
  also have "\<dots> = (\<not> contains_tag name (Elem t cs))"
    using Elem.IH by (auto simp: list_ex_iff)
  finally show ?case .
qed

lemma get_upcoming_ipos_result:
  assumes "http_ok w url page"
  shows "snd (get_upcoming_ipos w url) =
           (if contains_tag (ascii ''tbody'') page
            then Inr (map row_record (accepted_rows page))
            else Inl no_table_body)"
  using assms find_all_empty_iff[of "ascii ''tbody''" page]
  by (auto simp: http_ok_def get_upcoming_ipos_def Let_def bodies_loop_eq accepted_rows_def
      split: sum.splits)

lemma get_upcoming_ipos_events: "fst (get_upcoming_ipos w url) = [HttpGet url]"
  by (simp add: get_upcoming_ipos_def Let_def split: sum.splits)

text \<open>\<^verbatim>\<open>get_text(strip=True)\<close> removes white space outside ASCII as well.\<close>

lemma ex_get_text:
  "get_text (td padded_date) = ascii ''Aug 3, 2025''"
  "get_text (td (ascii '' Aug 4, 2025 '')) = ascii ''Aug 4, 2025''"
  "get_text (td nbsp_date) = nbsp_date"
  "get_text (td fullwidth_date) = fullwidth_date"
  by (simp_all add: get_text_def strip_def is_space_def td_def ascii_def nbsp_date_def
      fullwidth_date_def padded_date_def)

lemma get_text_td_ascii:
  "get_text (td (ascii ''TBD'')) = ascii ''TBD''"
  "get_text (td (ascii ''Aug 11, 2025'')) = ascii ''Aug 11, 2025''"
  "get_text (td (ascii ''Aug 12, 2025'')) = ascii ''Aug 12, 2025''"
  "get_text (td (ascii ''Aug 4, 2025'')) = ascii ''Aug 4, 2025''"
  "get_text (td (ascii ''YDAY'')) = ascii ''YDAY''"
  "get_text (td (ascii ''TDAY'')) = ascii ''TDAY''"
  "get_text (td (ascii ''NBSP'')) = ascii ''NBSP''"
  "get_text (td (ascii ''NODATE'')) = ascii ''NODATE''"
  "get_text (td (ascii ''FULL'')) = ascii ''FULL''"
  "get_text (td (ascii ''LAST'')) = ascii ''LAST''"
  "get_text (td (ascii ''LATE'')) = ascii ''LATE''"
  "get_text (td (ascii ''Acme Corp'')) = ascii ''Acme Corp''"
  "get_text (td (ascii ''NYSE'')) = ascii ''NYSE''"
  "get_text (td (ascii ''$10.00 - $12.00'')) = ascii ''$10.00 - $12.00''"
  "get_text (td (ascii ''5,000,000'')) = ascii ''5,000,000''"
  "get_text (td (ascii ''$55M'')) = ascii ''$55M''"
  "get_text (td (ascii ''$400M'')) = ascii ''$400M''"
  by (simp_all add: get_text_def strip_def is_space_def td_def ascii_def)

lemma find_td_ex_row:
  "find_all (ascii ''td'') (ex_row d tick) =
     [td d, td (ascii tick), td (ascii ''Acme Corp''), td (ascii ''NYSE''),
      td (ascii ''$10.00 - $12.00''), td (ascii ''5,000,000''), td (ascii ''$55M''),
      td (ascii ''$400M'')]"
  by (simp add: find_all_def ex_row_def td_def ascii_eq_iff)

lemma row_record_ex_row:
  "row_record (ex_row d tick) =
     [ascii ''date'' \<mapsto> get_text (td d), ascii ''symbol'' \<mapsto> get_text (td (ascii tick)),
      ascii ''company'' \<mapsto> ascii ''Acme Corp'', ascii ''exchange'' \<mapsto> ascii ''NYSE'',
      ascii ''price_range'' \<mapsto> ascii ''$10.00 - $12.00'',
      ascii ''shares_offered'' \<mapsto> ascii ''5,000,000'', ascii ''deal_size'' \<mapsto> ascii ''$55M'',
      ascii ''market_cap'' \<mapsto> ascii ''$400M'', ascii ''revenue'' \<mapsto> ascii ''-'']"
  by (simp add: row_record_def find_td_ex_row get_text_td_ascii)

text \<open>A row of ten cells is accepted: the guard of the row loop only skips rows with
  fewer than eight cells.\<close>

theorem ten_cell_row_accepted:
  "length (find_all (ascii ''td'') wide_row) = 10
   \<and> snd (get_upcoming_ipos wide_world default_url) = Inr [wide_ipo]"
  by (simp add: get_upcoming_ipos_def wide_world_def ex_world_def wide_page_def wide_row_def
      find_all_def get_text_def strip_def is_space_def td_def row_to_ipo_def cell_text_def
      wide_ipo_def ascii_def)

text \<open>
  Claim C2, amended. On a page with a table body, \<open>get_upcoming_ipos\<close> returns one
  record for each visited row with at least eight cells, in the order of the visit, and
  nothing for the other rows; the rows visited are, for each table body of the page in
  turn, all rows below it. The record takes the texts of the first eight cells, as
  \<^verbatim>\<open>get_text(strip=True)\<close> gives them, by position for date, symbol, company,
  exchange, price_range, shares_offered, deal_size and market_cap; revenue is the text of
  the ninth cell when the row has more than eight cells and the placeholder "-"
  otherwise. Cells after the ninth are ignored.
\<close>

theorem get_upcoming_ipos_rows:
  assumes "http_ok w url page" and "contains_tag (ascii ''tbody'') page"
  shows "snd (get_upcoming_ipos w url) = Inr (map row_record (accepted_rows page))"
  using assms by (simp add: get_upcoming_ipos_result)

lemma ex_http_ok: "http_ok ex_world default_url ex_page"
  by (simp add: http_ok_def ex_world_sel)

lemma ex_has_tbody: "contains_tag (ascii ''tbody'') ex_page"
  by (simp add: ex_page_def ascii_eq_iff)

lemma ex_accepted_rows:
  "accepted_rows ex_page =
     [ex_row padded_date ''YDAY'',
      ex_row (ascii '' Aug 4, 2025 '') ''TDAY'',
      ex_row nbsp_date ''NBSP'',
      ex_row (ascii ''TBD'') ''NODATE'',
      ex_row fullwidth_date ''FULL'',
      ex_row (ascii ''Aug 11, 2025'') ''LAST'',
      ex_row (ascii ''Aug 12, 2025'') ''LATE'']"
proof -
  have desc: "filter (is_tag (ascii ''tr'')) (descendants (ex_row d tick)) = []" for d tick
    by (simp add: ex_row_def td_def ascii_eq_iff)
  have tr: "is_tag (ascii ''tr'') (ex_row d tick)" for d tick
    by (simp add: ex_row_def)
  have short: "find_all (ascii ''td'') (Elem (ascii ''tr'') [td (ascii ''short''), td (ascii ''row'')])
                 = [td (ascii ''short''), td (ascii ''row'')]"
    by (simp add: find_all_def td_def ascii_eq_iff)
  have td_not_tr: "\<not> is_tag (ascii ''tr'') (td s)"
    "filter (is_tag (ascii ''tr'')) (descendants (td s)) = []" for s
    by (simp_all add: td_def ascii_eq_iff)
  have bodies: "find_all (ascii ''tbody'') ex_page =
      [Elem (ascii ''tbody'')
          [ex_row padded_date ''YDAY'',
           ex_row (ascii '' Aug 4, 2025 '') ''TDAY'',
           Elem (ascii ''tr'') [td (ascii ''short''), td (ascii ''row'')],
           ex_row nbsp_date ''NBSP'',
           ex_row (ascii ''TBD'') ''NODATE'',
           ex_row fullwidth_date ''FULL'',
           ex_row (ascii ''Aug 11, 2025'') ''LAST'',
           ex_row (ascii ''Aug 12, 2025'') ''LATE'']]"
    by (simp add: ex_page_def find_all_def ex_row_def td_def ascii_eq_iff)
  have trs: "find_all (ascii ''tr'') (Elem (ascii ''tbody'')
          [ex_row padded_date ''YDAY'',
           ex_row (ascii '' Aug 4, 2025 '') ''TDAY'',
           Elem (ascii ''tr'') [td (ascii ''short''), td (ascii ''row'')],
           ex_row nbsp_date ''NBSP'',
           ex_row (ascii ''TBD'') ''NODATE'',
           ex_row fullwidth_date ''FULL'',
           ex_row (ascii ''Aug 11, 2025'') ''LAST'',
           ex_row (ascii ''Aug 12, 2025'') ''LATE'']) =
          [ex_row padded_date ''YDAY'',
           ex_row (ascii '' Aug 4, 2025 '') ''TDAY'',
           Elem (ascii ''tr'') [td (ascii ''short''), td (ascii ''row'')],
           ex_row nbsp_date ''NBSP'',
           ex_row (ascii ''TBD'') ''NODATE'',
           ex_row fullwidth_date ''FULL'',
           ex_row (ascii ''Aug 11, 2025'') ''LAST'',
           ex_row (ascii ''Aug 12, 2025'') ''LATE'']"
    unfolding find_all_def by (simp add: desc tr td_not_tr)
  show ?thesis
    unfolding accepted_rows_def bodies
    by (simp add: trs find_td_ex_row short)
qed

lemma ex_records: "map row_record (accepted_rows ex_page) = ex_ipos"
  by (simp add: ex_accepted_rows row_record_ex_row ex_get_text get_text_td_ascii ex_ipos_def
      ex_ipo_def)

theorem get_upcoming_ipos_rows_witness:
  "snd (get_upcoming_ipos ex_world default_url) = Inr ex_ipos"
  using get_upcoming_ipos_rows[of ex_world default_url ex_page]
  by (simp add: ex_http_ok ex_has_tbody ex_records)

text \<open>
  Claim C6. After a successful request, a page without any table-body element makes
  \<open>get_upcoming_ipos\<close> raise the ValueError about the missing table body; a page with
  one makes it return a list of records.
\<close>

theorem missing_table_body_raises:
  assumes "http_ok w url page"
  shows "(\<not> contains_tag (ascii ''tbody'') page \<longrightarrow>
            snd (get_upcoming_ipos w url) = Inl no_table_body)
       \<and> (contains_tag (ascii ''tbody'') page \<longrightarrow>
            (\<exists>ipos. snd (get_upcoming_ipos w url) = Inr ipos))"
  using assms by (simp add: get_upcoming_ipos_result)

theorem missing_table_body_raises_witness:
  "snd (get_upcoming_ipos bare_world default_url) = Inl no_table_body
   \<and> snd (get_upcoming_ipos ex_world default_url) \<noteq> Inl no_table_body"
proof -
  have "http_ok bare_world default_url bare_page"
    by (simp add: http_ok_def bare_world_def ex_world_def)
  moreover have "\<not> contains_tag (ascii ''tbody'') bare_page"
    by (simp add: bare_page_def ex_row_def td_def ascii_eq_iff)
  ultimately have "snd (get_upcoming_ipos bare_world default_url) = Inl no_table_body"
    using missing_table_body_raises[of bare_world default_url bare_page] by simp
  moreover have "snd (get_upcoming_ipos ex_world default_url) \<noteq> Inl no_table_body"
    using missing_table_body_raises[of ex_world default_url ex_page] ex_http_ok ex_has_tbody
    by auto
  ultimately show ?thesis by simp
qed

section \<open>Missing configuration\<close>

lemma send_email_missing:
  assumes "environ w (ascii ''GMAIL_USER'') = None \<or> environ w (ascii ''GMAIL_PASS'') = None
           \<or> environ w (ascii ''RECIPIENT'') = None"
  shows "\<exists>k. environ w k = None \<and> send_email w msg = ([], Inl (KeyError k))"
  using assms by (auto simp: send_email_def environ_get_def split: option.splits)

lemma compose_email_missing:
  assumes "environ w (ascii ''GMAIL_USER'') = None \<or> environ w (ascii ''RECIPIENT'') = None"
    and "tz_or_default w tz_arg = Inr z"
  shows "\<exists>k. environ w k = None \<and> compose_email w ipos tz_arg = Inl (KeyError k)"
  using assms by (auto simp: compose_email_def environ_get_def Let_def split: option.splits)

text \<open>
  Claim C5. If GMAIL_USER, GMAIL_PASS or RECIPIENT is missing from the environment, a
  run ends with exit status 1 after an exception, and no SMTP connection, login or send
  is among its network actions. The failure is the KeyError of the read itself:
  \<open>send_email\<close> raises it at its environment reads, before it opens the connection,
  and \<open>compose_email\<close> raises it when the sender or the recipient is missing.
\<close>

theorem missing_configuration_aborts:
  assumes "environ w (ascii ''GMAIL_USER'') = None \<or> environ w (ascii ''GMAIL_PASS'') = None
           \<or> environ w (ascii ''RECIPIENT'') = None"
  shows "exit_status (main w) = 1 \<and> raised (main w) \<noteq> None
       \<and> \<not> list_ex is_smtp (events (main w))
       \<and> (\<exists>k. environ w k = None \<and> send_email w msg = ([], Inl (KeyError k)))
       \<and> ((environ w (ascii ''GMAIL_USER'') = None \<or> environ w (ascii ''RECIPIENT'') = None)
            \<and> tz_or_default w tz_arg = Inr z \<longrightarrow>
            (\<exists>k. environ w k = None \<and> compose_email w ipos tz_arg = Inl (KeyError k)))"
proof -
  obtain ev1 r1 where g: "get_upcoming_ipos w default_url = (ev1, r1)"
    by (cases "get_upcoming_ipos w default_url") auto
  have ev1: "ev1 = [HttpGet default_url]"
    using get_upcoming_ipos_events[of w default_url] g by simp
  have s: "\<exists>k. environ w k = None \<and> send_email w m = ([], Inl (KeyError k))" for m
    using assms by (rule send_email_missing)
  have "exit_status (main w) = 1 \<and> raised (main w) \<noteq> None
       \<and> \<not> list_ex is_smtp (events (main w))"
  proof (cases r1)
    case (Inl e)
    with g ev1 show ?thesis by (simp add: main_def)
  next
    case all: (Inr all_ipos)
    show ?thesis
    proof (cases "filter_upcoming w all_ipos 7 None")
      case (Inl e)
      with g ev1 all show ?thesis by (simp add: main_def)
    next
      case up: (Inr upcoming_ipos)
      show ?thesis
      proof (cases "compose_email w upcoming_ipos None")
        case (Inl e)
        with g ev1 all up show ?thesis by (simp add: main_def)
      next
        case (Inr email_msg)
        from s[of email_msg] obtain k where "send_email w email_msg = ([], Inl (KeyError k))"
          by blast
        with g ev1 all up Inr show ?thesis by (simp add: main_def)
      qed
    qed
  qed
  with s[of msg] compose_email_missing[of w tz_arg z ipos] show ?thesis by blast
qed

lemma nopass_env: "environ nopass_world (ascii ''GMAIL_PASS'') = None"
  by (simp add: nopass_world_def)

theorem missing_configuration_aborts_witness:
  "environ nopass_world (ascii ''GMAIL_PASS'') = None
   \<and> exit_status (main nopass_world) = 1
   \<and> \<not> list_ex is_smtp (events (main nopass_world))"
  using missing_configuration_aborts[of nopass_world] nopass_env by simp

section \<open>The composer\<close>

lemma length_split_on: "length (split_on c s) = Suc (count_list s c)"
  by (induction s) (auto split: list.splits)

lemma line_count_eq: "line_count s = Suc (count_list s 0x0A)"
  by (simp add: line_count_def length_split_on)

lemma set_join: "set (join sep xs) \<subseteq> set sep \<union> \<Union> (set ` set xs)"
  by (induction sep xs rule: join.induct) auto

lemma count_join:
  "xs \<noteq> [] \<Longrightarrow> count_list (join sep xs) c =
     sum_list (map (\<lambda>x. count_list x c) xs) + (length xs - 1) * count_list sep c"
  by (induction sep xs rule: join.induct) auto

lemma getitems_Inr:
  "list_all (\<lambda>k. r k \<noteq> None) ks \<Longrightarrow>
     getitems r ks = Inr (map (\<lambda>k. case r k of None \<Rightarrow> [] | Some v \<Rightarrow> v) ks)"
  by (induction ks) (auto simp: getitem_def)

lemma getitems_Inr_D:
  "getitems r ks = Inr vals \<Longrightarrow> list_all (\<lambda>k. r k \<noteq> None) ks"
  by (induction ks arbitrary: vals) (auto simp: getitem_def split: option.splits sum.splits)

lemma getitems_cong:
  "\<forall>k \<in> set ks. a k = b k \<Longrightarrow> getitems a ks = getitems b ks"
  by (induction ks) (auto simp: getitem_def split: option.splits)

lemma compose_loop_Inr:
  "list_all has_columns ipos \<Longrightarrow>
     compose_loop ipos lines html_rows =
       Inr (lines @ map (\<lambda>r. text_line (column_values r)) ipos,
            html_rows @ map (\<lambda>r. html_row (column_values r)) ipos)"
  by (induction ipos arbitrary: lines html_rows)
     (auto simp: has_columns_def column_values_def getitems_Inr)

lemma compose_loop_Inr_D:
  "compose_loop ipos lines html_rows = Inr res \<Longrightarrow> list_all has_columns ipos"
  by (induction ipos arbitrary: lines html_rows)
     (auto simp: has_columns_def split: sum.splits dest: getitems_Inr_D)

lemma revenue_key_not_rendered: "ascii ''revenue'' \<notin> set rendered_columns"
  by (simp add: rendered_columns_def ascii_eq_iff)

lemma compose_loop_cong:
  "list_all2 agree_but_revenue xs ys \<Longrightarrow>
     compose_loop xs lines html_rows = compose_loop ys lines html_rows"
proof (induction xs ys arbitrary: lines html_rows rule: list_all2_induct)
  case Nil
  show ?case by simp
next
  case (Cons a xs b ys)
  have "\<forall>k \<in> set rendered_columns. a k = b k"
  proof
    fix k
    assume "k \<in> set rendered_columns"
    with revenue_key_not_rendered have "k \<noteq> ascii ''revenue''" by auto
    with Cons.hyps(1) show "a k = b k" by (simp add: agree_but_revenue_def)
  qed
  then have "getitems a rendered_columns = getitems b rendered_columns"
    by (rule getitems_cong)
  with Cons.IH show ?case by (simp split: sum.splits)
qed

lemma count_header: "count_list header 0x0A = 1"
  by (simp add: header_def newline_def ascii_def cp_def)

lemma text_line_no_newline:
  assumes "list_all no_newline vals"
  shows "count_list (text_line vals) 0x0A = 0"
proof -
  have "0x0A \<notin> set (join (ascii '' | '') vals)"
    using set_join[of "ascii '' | ''" vals] assms
    by (auto simp: list_all_iff no_newline_def ascii_def)
  then show ?thesis by (simp add: text_line_def)
qed

lemma line_count_plain:
  assumes "list_all (\<lambda>r. list_all no_newline (column_values r)) ipos"
  shows "line_count (join newline (header # map (\<lambda>r. text_line (column_values r)) ipos))
           = length ipos + 2"
proof -
  have z: "\<forall>r \<in> set ipos. count_list (text_line (column_values r)) 0x0A = 0"
    using assms by (auto simp: list_all_iff text_line_no_newline)
  show ?thesis
    using z by (simp add: line_count_eq count_join count_header newline_def)
qed

lemma count_sub_skip:
  "cp CHR ''<'' \<notin> set xs \<Longrightarrow>
     count_sub (ascii ''<tr>'') (xs @ ys) = count_sub (ascii ''<tr>'') ys"
  by (induction xs) (auto simp: ascii_def cp_def)

lemma count_sub_cell:
  "no_lt v \<Longrightarrow> count_sub (ascii ''<tr>'') (html_cell v @ ys) = count_sub (ascii ''<tr>'') ys"
proof -
  assume v: "no_lt v"
  have "count_sub (ascii ''<tr>'') (ascii ''<td>'' @ v @ ascii ''</td>'' @ ys)
          = count_sub (ascii ''<tr>'') (v @ ascii ''</td>'' @ ys)"
    by (simp add: ascii_def)
  also have "\<dots> = count_sub (ascii ''<tr>'') (ascii ''</td>'' @ ys)"
    using v by (simp add: no_lt_def count_sub_skip)
  also have "\<dots> = count_sub (ascii ''<tr>'') ys"
    by (simp add: ascii_def)
  finally show ?thesis by (simp add: html_cell_def)
qed

lemma count_sub_cells:
  "list_all no_lt vs \<Longrightarrow>
     count_sub (ascii ''<tr>'') (concat (map html_cell vs) @ ys) = count_sub (ascii ''<tr>'') ys"
  by (induction vs) (simp_all add: count_sub_cell)

lemma count_sub_row:
  assumes "list_all no_lt vs"
  shows "count_sub (ascii ''<tr>'') (html_row vs @ ys) = Suc (count_sub (ascii ''<tr>'') ys)"
proof -
  have "count_sub (ascii ''<tr>'') (ascii ''<tr>'' @ concat (map html_cell vs) @ ascii ''</tr>'' @ ys)
          = Suc (count_sub (ascii ''<tr>'') (concat (map html_cell vs) @ ascii ''</tr>'' @ ys))"
    by (simp add: ascii_def)
  also have "\<dots> = Suc (count_sub (ascii ''<tr>'') (ascii ''</tr>'' @ ys))"
    using assms by (simp add: count_sub_cells)
  also have "\<dots> = Suc (count_sub (ascii ''<tr>'') ys)"
    by (simp add: ascii_def)
  finally show ?thesis by (simp add: html_row_def)
qed

lemma count_sub_rows:
  "list_all (\<lambda>r. list_all no_lt (column_values r)) ipos \<Longrightarrow>
     count_sub (ascii ''<tr>'') (concat (map (\<lambda>r. html_row (column_values r)) ipos) @ ys)
       = length ipos + count_sub (ascii ''<tr>'') ys"
  by (induction ipos) (simp_all add: count_sub_row)

lemma count_sub_skip_code:
  "60 \<notin> set xs \<Longrightarrow>
     count_sub [60, 116, 114, 62] (xs @ ys) = count_sub [60, 116, 114, 62] ys"
  using count_sub_skip[of xs ys] by (simp add: ascii_def cp_def)

lemma count_sub_head:
  assumes "cp CHR ''<'' \<notin> set d"
  shows "count_sub (ascii ''<tr>'') (html_head d @ ys) = Suc (count_sub (ascii ''<tr>'') ys)"
  using assms by (simp add: html_head_def ascii_def cp_def count_sub_skip_code)

lemma count_sub_tail: "count_sub (ascii ''<tr>'') html_tail = 0"
  by (simp add: html_tail_def ascii_def)

lemma show_nat_no_lt: "cp CHR ''<'' \<notin> set (show_nat n)"
proof (induction n rule: show_nat.induct)
  case (1 n)
  show ?case
  proof (cases "n < 10")
    case True
    then show ?thesis by (subst show_nat.simps) (auto simp: cp_def)
  next
    case False
    have "n mod 10 < 10" by simp
    then have "48 + n mod 10 \<noteq> 60" by arith
    with False 1 show ?thesis
      by (subst show_nat.simps) (auto simp: cp_def)
  qed
qed

lemma month_name_no_lt: "cp CHR ''<'' \<notin> set (month_name m)"
proof (cases "1 \<le> m \<and> m \<le> 12")
  case False
  then show ?thesis by (auto simp: month_name_def)
next
  case True
  let ?names = "[''January'', ''February'', ''March'', ''April'', ''May'', ''June'', ''July'',
            ''August'', ''September'', ''October'', ''November'', ''December'']"
  have len: "length ?names = 12" by simp
  from True have "m - 1 < length ?names" unfolding len by arith
  then have "?names ! (m - 1) \<in> set ?names" by (rule nth_mem)
  moreover have "\<forall>s \<in> set ?names. cp CHR ''<'' \<notin> set (ascii s)"
    by (simp add: ascii_def cp_def)
  ultimately have "cp CHR ''<'' \<notin> set (ascii (?names ! (m - 1)))" by blast
  with True show ?thesis by (simp add: month_name_def)
qed

lemma strftime_no_lt: "cp CHR ''<'' \<notin> set (strftime d)"
proof -
  have "cp CHR ''<'' \<notin> set (ascii '' '')" "cp CHR ''<'' \<notin> set (ascii '', '')"
       "cp CHR ''<'' \<notin> set (ascii ''0'')"
    by (simp_all add: ascii_def cp_def)
  then show ?thesis
    by (simp add: strftime_def pad2_def month_name_no_lt show_nat_no_lt del: show_nat.simps)
qed

lemma row_marker_count_html:
  assumes "list_all (\<lambda>r. list_all no_lt (column_values r)) ipos"
  shows "row_marker_count
           (html_body (strftime d) (map (\<lambda>r. html_row (column_values r)) ipos))
         = length ipos + 1"
  using assms
  by (simp add: row_marker_count_def html_body_def count_sub_head strftime_no_lt
      count_sub_rows count_sub_tail)

lemma compose_email_nonempty:
  assumes "tz_or_default w tz_arg = Inr z"
    and "environ w (ascii ''GMAIL_USER'') = Some u" and "environ w (ascii ''RECIPIENT'') = Some t"
    and "ipos \<noteq> []" and "list_all has_columns ipos"
  shows "\<exists>m. compose_email w ipos tz_arg = Inr m
           \<and> plain m = join newline (header # map (\<lambda>r. text_line (column_values r)) ipos)
           \<and> html m = html_body (strftime (now w z))
                          (map (\<lambda>r. html_row (column_values r)) ipos)"
  using assms by (simp add: compose_email_def environ_get_def Let_def compose_loop_Inr)

lemma compose_email_empty:
  assumes "tz_or_default w tz_arg = Inr z"
    and "environ w (ascii ''GMAIL_USER'') = Some u" and "environ w (ascii ''RECIPIENT'') = Some t"
  shows "\<exists>m. compose_email w [] tz_arg = Inr m
           \<and> plain m = no_ipos_text (strftime (now w z))
           \<and> html m = ascii ''<p>'' @ no_ipos_text (strftime (now w z)) @ ascii ''</p>''"
  using assms by (simp add: compose_email_def environ_get_def Let_def)

lemma compose_email_Inr_D:
  assumes "compose_email w ipos tz_arg = Inr m" and "ipos \<noteq> []"
  shows "list_all has_columns ipos
       \<and> (\<exists>d. html m = html_body d (map (\<lambda>r. html_row (column_values r)) ipos))"
proof -
  from assms obtain lines html_rows d where
    l: "compose_loop ipos [header] [] = Inr (lines, html_rows)" and h: "html m = html_body d html_rows"
    by (auto simp: compose_email_def Let_def split: sum.splits)
  from l have c: "list_all has_columns ipos" by (rule compose_loop_Inr_D)
  with l have "html_rows = map (\<lambda>r. html_row (column_values r)) ipos"
    by (simp add: compose_loop_Inr)
  with c h show ?thesis by blast
qed

text \<open>What a returned message says about the zone \<open>z\<close> the call resolved.\<close>

lemma compose_email_as_of:
  assumes "tz_or_default w tz_arg = Inr z" and "compose_email w ipos tz_arg = Inr m"
  shows "subject m = subject_line (strftime (now w z))
       \<and> (ipos = [] \<longrightarrow> plain m = no_ipos_text (strftime (now w z))
                       \<and> html m = ascii ''<p>'' @ no_ipos_text (strftime (now w z)) @ ascii ''</p>'')
       \<and> (ipos \<noteq> [] \<longrightarrow> prefix (html_head (strftime (now w z))) (html m))"
  using assms
  by (auto simp: compose_email_def Let_def subject_line_def html_body_def
      split: sum.splits if_splits)

lemma compose_email_returns:
  assumes "tz_or_default w tz_arg = Inr z"
    and "environ w (ascii ''GMAIL_USER'') \<noteq> None" and "environ w (ascii ''RECIPIENT'') \<noteq> None"
    and "list_all has_columns ipos"
  shows "\<not> isl (compose_email w ipos tz_arg)"
proof -
  from assms(2,3) obtain u t
    where u: "environ w (ascii ''GMAIL_USER'') = Some u"
      and t: "environ w (ascii ''RECIPIENT'') = Some t"
    by auto
  show ?thesis
  proof (cases "ipos = []")
    case True
    from compose_email_empty[OF assms(1) u t] True show ?thesis by auto
  next
    case False
    from compose_email_nonempty[OF assms(1) u t False assms(4)] show ?thesis by auto
  qed
qed

lemma sublist_concat: "x \<in> set xs \<Longrightarrow> sublist x (concat xs)"
proof -
  assume "x \<in> set xs"
  then obtain as bs where "xs = as @ x # bs" by (auto simp: in_set_conv_decomp)
  then have "concat xs = concat as @ x @ concat bs" by simp
  then show ?thesis unfolding sublist_def by blast
qed

lemma sublist_trans: "sublist a b \<Longrightarrow> sublist b c \<Longrightarrow> sublist a c"
  using sublist_order.order_trans .

lemma ex_env_sel: "environ ex_world (ascii ''GMAIL_USER'') = Some (ascii ''bot@example.com'')"
  "environ ex_world (ascii ''RECIPIENT'') = Some (ascii ''desk@example.com'')"
  by (simp_all add: ex_world_sel ex_env_def ascii_eq_iff)

lemma ex_as_of: "strftime (now ex_world new_york) = ascii ''August 04, 2025''"
  by (simp add: ex_world_sel ex_now_def strftime_def month_name_def pad2_def ascii_def cp_def)

lemma ex_ipo_columns: "column_values (ex_ipo d tick) =
   [d, ascii tick, ascii ''Acme Corp'', ascii ''NYSE'', ascii ''$10.00 - $12.00'',
    ascii ''5,000,000'', ascii ''$55M'', ascii ''$400M'']"
  by (simp add: column_values_def rendered_columns_def ex_ipo_def ascii_eq_iff)

lemma ex_ipo_has_columns: "has_columns (ex_ipo d tick)"
  by (simp add: has_columns_def rendered_columns_def ex_ipo_def ascii_eq_iff)

lemma ex_common_plain:
  "no_newline (ascii ''Acme Corp'')" "no_newline (ascii ''NYSE'')"
  "no_newline (ascii ''$10.00 - $12.00'')" "no_newline (ascii ''5,000,000'')"
  "no_newline (ascii ''$55M'')" "no_newline (ascii ''$400M'')"
  "no_newline (ascii ''Aug 4, 2025'')" "no_newline (ascii ''TDAY'')"
  "no_lt (ascii ''Acme Corp'')" "no_lt (ascii ''NYSE'')"
  "no_lt (ascii ''$10.00 - $12.00'')" "no_lt (ascii ''5,000,000'')"
  "no_lt (ascii ''$55M'')" "no_lt (ascii ''$400M'')"
  "no_lt (ascii ''Aug 4, 2025'')" "no_lt (ascii ''TDAY'')"
  by (simp_all add: no_newline_def no_lt_def ascii_def cp_def)

text \<open>For one record the plain-text body has three lines (titles, the rule of dashes,
  the record) and the HTML body has two row markers (the header row and the record).\<close>

theorem one_record_three_lines:
  "\<not> isl (compose_email ex_world ex_one None)
   \<and> line_count (plain (projr (compose_email ex_world ex_one None))) = 3
   \<and> row_marker_count (html (projr (compose_email ex_world ex_one None))) = 2
   \<and> length ex_one = 1"
proof -
  have n: "list_all (\<lambda>r. list_all no_newline (column_values r)) ex_one"
    by (simp add: ex_one_def ex_ipo_columns ex_common_plain)
  have l: "list_all (\<lambda>r. list_all no_lt (column_values r)) ex_one"
    by (simp add: ex_one_def ex_ipo_columns ex_common_plain)
  obtain m where m: "compose_email ex_world ex_one None = Inr m"
    and p: "plain m = join newline (header # map (\<lambda>r. text_line (column_values r)) ex_one)"
    and h: "html m = html_body (strftime (now ex_world new_york))
                          (map (\<lambda>r. html_row (column_values r)) ex_one)"
    using compose_email_nonempty[OF ex_tz ex_env_sel, of ex_one]
    by (auto simp: ex_one_def ex_ipo_has_columns)
  have "line_count (plain m) = 3"
    unfolding p using line_count_plain[OF n] by (simp add: ex_one_def)
  moreover have "row_marker_count (html m) = 2"
    unfolding h using row_marker_count_html[OF l] by (simp add: ex_one_def)
  ultimately show ?thesis using m by (simp add: ex_one_def)
qed

text \<open>
  Claim C3, amended. With the zone resolved and sender and recipient configured,
  composing the empty sequence gives a plain-text body that is the sentence "There are
  no IPOs scheduled within the upcoming week as of" followed by the as-of date, and an
  HTML body that is the same sentence in a paragraph. Composing \<open>n > 0\<close> records that
  have the eight rendered keys gives a plain-text body that joins \<open>n + 1\<close> entries with
  newlines, the header entry and one row for each record; the header entry is itself
  two lines (the column titles and a rule of 80 dashes), so when no field contains a
  newline the body has exactly \<open>n + 2\<close> lines; and, separately, when no field contains
  \<^verbatim>\<open><\<close> the HTML body has exactly \<open>n + 1\<close> row markers, one for the header row
  and one for each record.
\<close>

theorem compose_email_bodies:
  assumes "tz_or_default w tz_arg = Inr z"
    and "environ w (ascii ''GMAIL_USER'') = Some u" and "environ w (ascii ''RECIPIENT'') = Some t"
    and "as_of = strftime (now w z)"
  shows "(\<exists>m. compose_email w [] tz_arg = Inr m
            \<and> plain m = ascii ''There are no IPOs scheduled within the upcoming week as of ''
                          @ as_of @ ascii ''.''
            \<and> html m = ascii ''<p>There are no IPOs scheduled within the upcoming week as of ''
                          @ as_of @ ascii ''.</p>'')
       \<and> (ipos \<noteq> [] \<and> list_all has_columns ipos \<longrightarrow>
            (\<exists>m. compose_email w ipos tz_arg = Inr m
               \<and> plain m = join newline (header # map (\<lambda>r. text_line (column_values r)) ipos)
               \<and> (list_all (\<lambda>r. list_all no_newline (column_values r)) ipos \<longrightarrow>
                    line_count (plain m) = length ipos + 2)
               \<and> (list_all (\<lambda>r. list_all no_lt (column_values r)) ipos \<longrightarrow>
                    row_marker_count (html m) = length ipos + 1)))"
proof (intro conjI impI)
  show "\<exists>m. compose_email w [] tz_arg = Inr m
            \<and> plain m = ascii ''There are no IPOs scheduled within the upcoming week as of ''
                          @ as_of @ ascii ''.''
            \<and> html m = ascii ''<p>There are no IPOs scheduled within the upcoming week as of ''
                          @ as_of @ ascii ''.</p>''"
    using compose_email_empty[OF assms(1-3)] assms(4)
    by (auto simp: no_ipos_text_def ascii_def)
next
  assume a: "ipos \<noteq> [] \<and> list_all has_columns ipos"
  then obtain m where m: "compose_email w ipos tz_arg = Inr m"
    and p: "plain m = join newline (header # map (\<lambda>r. text_line (column_values r)) ipos)"
    and h: "html m = html_body (strftime (now w z))
                          (map (\<lambda>r. html_row (column_values r)) ipos)"
    using compose_email_nonempty[OF assms(1-3), of ipos] by blast
  have 1: "list_all (\<lambda>r. list_all no_newline (column_values r)) ipos \<longrightarrow>
          line_count (plain m) = length ipos + 2"
    unfolding p by (simp add: line_count_plain)
  have 2: "list_all (\<lambda>r. list_all no_lt (column_values r)) ipos \<longrightarrow>
          row_marker_count (html m) = length ipos + 1"
    unfolding h by (simp add: row_marker_count_html)
  from m p 1 2 show "\<exists>m. compose_email w ipos tz_arg = Inr m
               \<and> plain m = join newline (header # map (\<lambda>r. text_line (column_values r)) ipos)
               \<and> (list_all (\<lambda>r. list_all no_newline (column_values r)) ipos \<longrightarrow>
                    line_count (plain m) = length ipos + 2)
               \<and> (list_all (\<lambda>r. list_all no_lt (column_values r)) ipos \<longrightarrow>
                    row_marker_count (html m) = length ipos + 1)"
    by blast
qed

text \<open>The witness composes nothing, then one record with markup in a field (its line
  count follows all the same), then one record with a newline in a field (its row
  markers follow all the same).\<close>

theorem compose_email_bodies_witness:
  "plain (projr (compose_email ex_world [] None)) =
     ascii ''There are no IPOs scheduled within the upcoming week as of August 04, 2025.''
   \<and> html (projr (compose_email ex_world [] None)) =
     ascii ''<p>There are no IPOs scheduled within the upcoming week as of August 04, 2025.</p>''
   \<and> line_count (plain (projr (compose_email ex_world [ex_markup] None))) = 3
   \<and> row_marker_count (html (projr (compose_email ex_world [ex_two_lines] None))) = 2"
proof -
  have cm: "column_values ex_markup =
      [ascii ''Aug 4, 2025'', ascii ''TDAY'', ascii ''<b>R&D</b> Corp'', ascii ''NYSE'',
       ascii ''$10.00 - $12.00'', ascii ''5,000,000'', ascii ''$55M'', ascii ''$400M'']"
    by (simp add: column_values_def rendered_columns_def ex_markup_def ex_ipo_def ascii_eq_iff)
  have ct: "column_values ex_two_lines =
      [ascii ''Aug 4, 2025'', ascii ''TDAY'', ascii ''Acme'' @ [0x0A] @ ascii ''Corp'', ascii ''NYSE'',
       ascii ''$10.00 - $12.00'', ascii ''5,000,000'', ascii ''$55M'', ascii ''$400M'']"
    by (simp add: column_values_def rendered_columns_def ex_two_lines_def ex_ipo_def
        ascii_eq_iff)
  have hm: "list_all has_columns [ex_markup]"
    by (simp add: has_columns_def rendered_columns_def ex_markup_def ex_ipo_def ascii_eq_iff)
  have ht: "list_all has_columns [ex_two_lines]"
    by (simp add: has_columns_def rendered_columns_def ex_two_lines_def ex_ipo_def ascii_eq_iff)
  have nm: "list_all (\<lambda>r. list_all no_newline (column_values r)) [ex_markup]"
    by (simp add: cm ex_common_plain) (simp add: no_newline_def ascii_def)
  have lt: "list_all (\<lambda>r. list_all no_lt (column_values r)) [ex_two_lines]"
    by (simp add: ct ex_common_plain) (simp add: no_lt_def ascii_def cp_def)
  have e: "plain (projr (compose_email ex_world [] None)) =
     ascii ''There are no IPOs scheduled within the upcoming week as of August 04, 2025.''
   \<and> html (projr (compose_email ex_world [] None)) =
     ascii ''<p>There are no IPOs scheduled within the upcoming week as of August 04, 2025.</p>''"
    using compose_email_bodies[OF ex_tz ex_env_sel ex_as_of[symmetric], of "[]"]
    by (auto simp: ascii_def)
  have a: "line_count (plain (projr (compose_email ex_world [ex_markup] None))) = 3"
    using compose_email_bodies[OF ex_tz ex_env_sel ex_as_of[symmetric], of "[ex_markup]"] hm nm
    by auto
  have b: "row_marker_count (html (projr (compose_email ex_world [ex_two_lines] None))) = 2"
    using compose_email_bodies[OF ex_tz ex_env_sel ex_as_of[symmetric], of "[ex_two_lines]"]
      ht lt
    by auto
  from e a b show ?thesis by simp
qed

text \<open>
  Claim C8. Two record lists of equal length whose records agree pairwise on every
  field other than revenue give the same result of \<open>compose_email\<close> in the same world
  and zone: the same subject, addresses, plain-text body and HTML body (or the same
  error). Only the eight columns date, symbol, company, exchange, price_range,
  shares_offered, deal_size and market_cap are read.
\<close>

theorem revenue_not_rendered:
  assumes "list_all2 agree_but_revenue xs ys"
  shows "compose_email w xs tz_arg = compose_email w ys tz_arg"
proof -
  from assms have "length xs = length ys" by (rule list_all2_lengthD)
  then have e: "(xs = []) = (ys = [])" by auto
  show ?thesis
    unfolding compose_email_def e compose_loop_cong[OF assms] by (rule refl)
qed

theorem revenue_not_rendered_witness:
  "ex_ipo (ascii ''Aug 4, 2025'') ''TDAY'' (ascii ''revenue'') \<noteq> ex_revenue (ascii ''revenue'')
   \<and> compose_email ex_world [ex_ipo (ascii ''Aug 4, 2025'') ''TDAY''] None =
       compose_email ex_world [ex_revenue] None"
proof -
  have "agree_but_revenue (ex_ipo (ascii ''Aug 4, 2025'') ''TDAY'') ex_revenue"
    by (simp add: agree_but_revenue_def ex_revenue_def)
  then have "list_all2 agree_but_revenue [ex_ipo (ascii ''Aug 4, 2025'') ''TDAY''] [ex_revenue]"
    by simp
  from revenue_not_rendered[OF this, of ex_world None]
  show ?thesis by (simp add: ex_revenue_def ex_ipo_def ascii_eq_iff)
qed

text \<open>
  Claim C10. When \<open>compose_email\<close> returns a message for a non-empty list, every
  rendered field value of every record stands in the HTML body exactly as it is, between
  \<^verbatim>\<open><td>\<close> and \<^verbatim>\<open></td>\<close>: nothing is escaped, so markup in a value is markup
  in the body.
\<close>

theorem html_fields_verbatim:
  assumes "compose_email w ipos tz_arg = Inr m" and "ipos \<noteq> []"
    and "r \<in> set ipos" and "k \<in> set rendered_columns"
  shows "\<exists>v. r k = Some v \<and> sublist (ascii ''<td>'' @ v @ ascii ''</td>'') (html m)"
proof -
  from compose_email_Inr_D[OF assms(1,2)] obtain d where
    c: "list_all has_columns ipos"
    and h: "html m = html_body d (map (\<lambda>r. html_row (column_values r)) ipos)"
    by blast
  from c assms(3) have "has_columns r" by (simp add: list_all_iff)
  with assms(4) obtain v where v: "r k = Some v"
    by (auto simp: has_columns_def list_all_iff)
  with assms(4) have "v \<in> set (column_values r)"
    by (force simp: column_values_def)
  then have "html_cell v \<in> set (map html_cell (column_values r))" by simp
  then have "sublist (html_cell v) (concat (map html_cell (column_values r)))"
    by (rule sublist_concat)
  then have 1: "sublist (html_cell v) (html_row (column_values r))"
    unfolding html_row_def sublist_def by (metis append.assoc)
  from assms(3) have "html_row (column_values r) \<in> set (map (\<lambda>r. html_row (column_values r)) ipos)"
    by simp
  then have "sublist (html_row (column_values r))
               (concat (map (\<lambda>r. html_row (column_values r)) ipos))"
    by (rule sublist_concat)
  then have 2: "sublist (html_row (column_values r)) (html m)"
    unfolding h html_body_def by (simp add: sublist_append)
  from sublist_trans[OF 1 2] v show ?thesis by (simp add: html_cell_def)
qed

theorem html_fields_verbatim_witness:
  "sublist (ascii ''<td><b>R&D</b> Corp</td>'')
     (html (projr (compose_email ex_world [ex_markup] None)))"
proof -
  have hc: "list_all has_columns [ex_markup]"
    by (simp add: has_columns_def rendered_columns_def ex_markup_def ex_ipo_def ascii_eq_iff)
  obtain m where m: "compose_email ex_world [ex_markup] None = Inr m"
    using compose_email_nonempty[OF ex_tz ex_env_sel _ hc] by auto
  have k: "ascii ''company'' \<in> set rendered_columns" by (simp add: rendered_columns_def)
  have v: "ex_markup (ascii ''company'') = Some (ascii ''<b>R&D</b> Corp'')"
    by (simp add: ex_markup_def)
  have j: "ascii ''<td>'' @ ascii ''<b>R&D</b> Corp'' @ ascii ''</td>''
             = ascii ''<td><b>R&D</b> Corp</td>''"
    by (simp add: ascii_def)
  from html_fields_verbatim[OF m _ _ k, of ex_markup] m v j
  show ?thesis by auto
qed

section \<open>The fallback zone\<close>

text \<open>
  Claim C9. When TIMEZONE is not in the environment and no zone is passed, both
  functions resolve America/New_York (which pytz knows) and read the clock there.
  \<open>filter_upcoming\<close> returns what the window from New York's date gives: the records
  between that date and that date plus the window, or the overflow of the date
  arithmetic. A message \<open>compose_email\<close> returns carries New York's date as the as-of
  date, in the subject, in both bodies for the empty list and at the head of the HTML
  body otherwise; and it does return one when sender and recipient are configured and
  the records have the rendered keys. Both calls equal the calls with New York passed.
\<close>

theorem default_zone_new_york:
  assumes "environ w (ascii ''TIMEZONE'') = None"
    and "known_zone w (ascii ''America/New_York'')"
  shows "tz_or_default w None = Inr new_york
       \<and> filter_upcoming w ipos days_ahead None = window_from w new_york ipos days_ahead
       \<and> filter_upcoming w ipos days_ahead None = filter_upcoming w ipos days_ahead (Some new_york)
       \<and> compose_email w ipos None = compose_email w ipos (Some new_york)
       \<and> (\<forall>m. compose_email w ipos None = Inr m \<longrightarrow>
              subject m = subject_line (strftime (now w new_york))
            \<and> (ipos = [] \<longrightarrow>
                  plain m = no_ipos_text (strftime (now w new_york))
                \<and> html m = ascii ''<p>'' @ no_ipos_text (strftime (now w new_york))
                             @ ascii ''</p>'')
            \<and> (ipos \<noteq> [] \<longrightarrow> prefix (html_head (strftime (now w new_york))) (html m)))
       \<and> (environ w (ascii ''GMAIL_USER'') \<noteq> None \<and> environ w (ascii ''RECIPIENT'') \<noteq> None
            \<and> list_all has_columns ipos \<longrightarrow> \<not> isl (compose_email w ipos None))"
proof -
  have z: "tz_or_default w None = Inr new_york"
    using assms by (simp add: tz_or_default_def getenv_def pytz_timezone_def new_york_def)
  have z': "tz_or_default w (Some new_york) = Inr new_york"
    by (simp add: tz_or_default_def)
  have f: "filter_upcoming w ipos days_ahead None = window_from w new_york ipos days_ahead"
    using z by (rule filter_upcoming_eq_window_from)
  have f': "filter_upcoming w ipos days_ahead (Some new_york)
              = window_from w new_york ipos days_ahead"
    using z' by (rule filter_upcoming_eq_window_from)
  have c: "compose_email w ipos None = compose_email w ipos (Some new_york)"
    by (simp add: compose_email_def z z')
  have a: "\<forall>m. compose_email w ipos None = Inr m \<longrightarrow>
              subject m = subject_line (strftime (now w new_york))
            \<and> (ipos = [] \<longrightarrow>
                  plain m = no_ipos_text (strftime (now w new_york))
                \<and> html m = ascii ''<p>'' @ no_ipos_text (strftime (now w new_york))
                             @ ascii ''</p>'')
            \<and> (ipos \<noteq> [] \<longrightarrow> prefix (html_head (strftime (now w new_york))) (html m))"
    using compose_email_as_of[OF z] by blast
  have r: "environ w (ascii ''GMAIL_USER'') \<noteq> None \<and> environ w (ascii ''RECIPIENT'') \<noteq> None
            \<and> list_all has_columns ipos \<longrightarrow> \<not> isl (compose_email w ipos None)"
    using compose_email_returns[OF z] by blast
  have f2: "filter_upcoming w ipos days_ahead None
              = filter_upcoming w ipos days_ahead (Some new_york)"
    using f f' by simp
  show ?thesis
    using z f f2 c a r by - (intro conjI; assumption)
qed

text \<open>On the example clock the fallback zone's date is 4 August while the other zones
  are at 5 August: the filter keeps the record dated 4 August and drops the one dated
  12 August, and the mail is dated 4 August.\<close>

theorem default_zone_new_york_witness:
  "filter_upcoming ex_world ex_ipos 7 None = Inr ex_kept
   \<and> subject (projr (compose_email ex_world [] None)) = subject_line (ascii ''August 04, 2025'')
   \<and> plain (projr (compose_email ex_world [] None)) = no_ipos_text (ascii ''August 04, 2025'')
   \<and> \<not> isl (compose_email ex_world [] None)"
proof -
  have t: "environ ex_world (ascii ''TIMEZONE'') = None"
    by (simp add: ex_world_sel ex_env_def ascii_eq_iff)
  have k: "known_zone ex_world (ascii ''America/New_York'')"
    by (simp add: ex_world_sel)
  have w: "window_from ex_world new_york ex_ipos 7 = Inr ex_kept"
    by (simp add: window_from_def ex_today ex_in_window MINORDINAL_def MAXORDINAL_def)
  have e: "environ ex_world (ascii ''GMAIL_USER'') \<noteq> None"
    "environ ex_world (ascii ''RECIPIENT'') \<noteq> None"
    by (simp_all add: ex_env_sel)
  have f: "filter_upcoming ex_world ex_ipos 7 None = Inr ex_kept"
    using default_zone_new_york[OF t k, of ex_ipos 7] w by simp
  obtain m where m: "compose_email ex_world [] None = Inr m"
    using compose_email_empty[OF ex_tz ex_env_sel] by blast
  have "\<forall>m. compose_email ex_world [] None = Inr m \<longrightarrow>
              subject m = subject_line (strftime (now ex_world new_york))
            \<and> ([] = ([]::ipo list) \<longrightarrow>
                  plain m = no_ipos_text (strftime (now ex_world new_york))
                \<and> html m = ascii ''<p>'' @ no_ipos_text (strftime (now ex_world new_york))
                             @ ascii ''</p>'')
            \<and> ([] \<noteq> ([]::ipo list) \<longrightarrow>
                  prefix (html_head (strftime (now ex_world new_york))) (html m))"
    using default_zone_new_york[OF t k, of "[]" 0] by (elim conjE)
  with m have d: "subject m = subject_line (strftime (now ex_world new_york))"
    "plain m = no_ipos_text (strftime (now ex_world new_york))"
    by blast+
  from f m d show ?thesis by (simp add: ex_as_of)
qed

end
